theory Spec2Isabelle
  imports Main "HOL-Library.AList"
begin

section \<open>Text primitives\<close>

text \<open>
  Page text is a Python \<open>str\<close>. It is modelled as a \<open>string\<close> whose characters are
  the code points below 256. On these code points \<open>\d\<close> matches the ten ASCII digits
  and \<open>\s\<close>, like \<open>str.strip\<close>, the characters 9 to 13, 28 to 32, 133 and 160.
\<close>

definition is_digit :: "char \<Rightarrow> bool" where
  "is_digit c = (let n = (of_char c :: nat) in 48 \<le> n \<and> n \<le> 57)"

definition is_space :: "char \<Rightarrow> bool" where
  "is_space c = (let n = (of_char c :: nat) in
     (9 \<le> n \<and> n \<le> 13) \<or> (28 \<le> n \<and> n \<le> 32) \<or> n = 133 \<or> n = 160)"

text \<open>
  \<open>int(s)\<close> on a string of decimal digits. \<open>digits_value\<close> is the number the digits
  denote; CPython converts no string of more than \<open>sys.int_info.default_max_str_digits\<close>
  digits, so \<open>py_int\<close>, defined with the errors below, raises on a longer one.
\<close>

definition digit_val :: "char \<Rightarrow> nat" where
  "digit_val c = of_char c - 48"

definition digits_value :: "string \<Rightarrow> int" where
  "digits_value ds = int (foldl (\<lambda>a c. 10 * a + digit_val c) 0 ds)"

definition int_max_str_digits :: nat where
  "int_max_str_digits = 4300"

text \<open>\<open>s.strip()\<close> and \<open>s.rstrip(':')\<close>.\<close>

definition strip :: "string \<Rightarrow> string" where
  "strip s = rev (dropWhile is_space (rev (dropWhile is_space s)))"

definition rstrip_colon :: "string \<Rightarrow> string" where
  "rstrip_colon s = rev (dropWhile (\<lambda>c. c = CHR '':'') (rev s))"

section \<open>Regular expressions\<close>

text \<open>
  The two patterns of \<open>_get_page_info\<close> are sequences of four kinds of item: a literal,
  the group \<open>(\d+)\<close>, \<open>\s*\<close> and \<open>\s+\<close>. A greedy repetition takes the longest run
  first and gives characters back one at a time when the rest of the pattern fails.
  \<open>match_here\<close> returns the text of the groups, in order.
\<close>

datatype tok = Lit string | Digits | Spaces0 | Spaces1

fun first_some :: "('a \<Rightarrow> 'b option) \<Rightarrow> 'a list \<Rightarrow> 'b option" where
  "first_some f [] = None"
| "first_some f (x # xs) = (case f x of Some y \<Rightarrow> Some y | None \<Rightarrow> first_some f xs)"

definition greedy :: "(char \<Rightarrow> bool) \<Rightarrow> nat \<Rightarrow> string \<Rightarrow> nat list" where
  "greedy cls lo s = rev [lo..<Suc (length (takeWhile cls s))]"

primrec match_here :: "tok list \<Rightarrow> string \<Rightarrow> string list option" where
  "match_here [] s = Some []"
| "match_here (t # ts) s =
     (case t of
        Lit l \<Rightarrow> if take (length l) s = l then match_here ts (drop (length l) s) else None
      | Digits \<Rightarrow>
          first_some (\<lambda>n. map_option ((#) (take n s)) (match_here ts (drop n s)))
            (greedy is_digit 1 s)
      | Spaces0 \<Rightarrow> first_some (\<lambda>n. match_here ts (drop n s)) (greedy is_space 0 s)
      | Spaces1 \<Rightarrow> first_some (\<lambda>n. match_here ts (drop n s)) (greedy is_space 1 s))"

text \<open>\<open>re.search\<close>: the match at the leftmost position that has one.\<close>

fun search :: "tok list \<Rightarrow> string \<Rightarrow> string list option" where
  "search p [] = match_here p []"
| "search p (c # cs) =
     (case match_here p (c # cs) of Some g \<Rightarrow> Some g | None \<Rightarrow> search p cs)"

text \<open>\<open>m.group(i)\<close>, groups counted from 1.\<close>

definition group :: "string list \<Rightarrow> nat \<Rightarrow> string" where
  "group gs i = gs ! (i - 1)"

text \<open>\<open>r'(\d+)\s*occurrences'\<close> and \<open>r'showing occurrence\s+(\d+)\s*-\s*(\d+)'\<close>.\<close>

definition total_re :: "tok list" where
  "total_re = [Digits, Spaces0, Lit ''occurrences'']"

definition range_re :: "tok list" where
  "range_re = [Lit ''showing occurrence'', Spaces1, Digits, Spaces0, Lit ''-'', Spaces0, Digits]"

section \<open>Pages\<close>

text \<open>
  A parsed page (\<open>BeautifulSoup(response.text, 'lxml')\<close>) is modelled by the answers to
  the queries the scraper makes of it:
  \<^item> \<open>content_wrapper\<close>: \<open>soup.find('div', {'id': 'contentwrapper'})\<close>, and inside it
    \<open>content.find('span', {'class': 'caption'})\<close> with the caption's \<open>get_text()\<close>;
  \<^item> \<open>table_hp\<close>: \<open>soup.find('table', {'class': 'hp'})\<close>, its \<open>find_all('tr')\<close>, and
    for each row \<open>row.find('a')\<close> with the anchor's \<open>href\<close> attribute, if it has one;
  \<^item> \<open>tables\<close>: \<open>soup.find_all('table')\<close>, for each table its \<open>find_all('tr')\<close>, for
    each row its \<open>find_all('td')\<close>, and for each cell the strings below it in document
    order.
\<close>

type_synonym cell = "string list"

record soup =
  content_wrapper :: "string option option"
  table_hp :: "string option option list option"
  tables :: "cell list list list"

text \<open>
  Every \<open>raise ValueError(f"...")\<close> of the source is a constructor that carries the
  values its message prints; \<open>IntStringTooLong\<close> is the \<open>ValueError\<close> of \<open>int\<close> itself,
  "Exceeds the limit (4300 digits) for integer string conversion: value has k digits";
  \<open>RequestException\<close> is what \<open>_make_request\<close> re-raises.
\<close>

datatype error =
    ContentWrapperNotFound
  | CaptionNotFound
  | TotalNotFound string
  | IntStringTooLong nat
  | InvalidRange int int int
  | TableNotFound
  | TotalMismatch int int
  | TotalChanged int int
  | LinkCountMismatch int nat
  | RequestException
  | AttributeError

definition py_int :: "string \<Rightarrow> error + int" where
  "py_int ds =
     (if int_max_str_digits < length ds then Inl (IntStringTooLong (length ds))
      else Inr (digits_value ds))"

text \<open>
  \<open>_get_page_info\<close>. The three conversions are made in the order of the source: the
  total, then the start and the end of the range when the range pattern is found.
\<close>

definition get_page_info :: "soup \<Rightarrow> int \<Rightarrow> int \<Rightarrow> error + (int \<times> int \<times> int)" where
  "get_page_info soup year page =
     (case content_wrapper soup of
        None \<Rightarrow> Inl ContentWrapperNotFound
      | Some content \<Rightarrow>
     (case content of
        None \<Rightarrow> Inl CaptionNotFound
      | Some text \<Rightarrow>
     (case search total_re text of
        None \<Rightarrow> Inl (TotalNotFound text)
      | Some total_match \<Rightarrow>
     (case py_int (group total_match 1) of
        Inl e \<Rightarrow> Inl e
      | Inr total_accidents \<Rightarrow>
     (case (case search range_re text of
              Some range_match \<Rightarrow>
                (case py_int (group range_match 1) of
                   Inl e \<Rightarrow> Inl e
                 | Inr start \<Rightarrow>
                (case py_int (group range_match 2) of
                   Inl e \<Rightarrow> Inl e
                 | Inr end \<Rightarrow> Inr (start, end)))
            | None \<Rightarrow> Inr (1, min 100 total_accidents)) of
        Inl e \<Rightarrow> Inl e
      | Inr (start, end) \<Rightarrow>
          if \<not> (1 \<le> start \<and> start \<le> end \<and> end \<le> total_accidents)
          then Inl (InvalidRange start end total_accidents)
          else Inr (total_accidents, start, end))))))"

text \<open>\<open>_get_page_links\<close>: the header row is dropped, rows without a usable anchor are skipped.\<close>

fun collect_links :: "string \<Rightarrow> string option option list \<Rightarrow> string list \<Rightarrow> string list" where
  "collect_links base_url [] links = links"
| "collect_links base_url (row # rows) links =
     collect_links base_url rows
       (case row of
          Some (Some href) \<Rightarrow> links @ [base_url @ href]
        | _ \<Rightarrow> links)"

definition get_page_links :: "string \<Rightarrow> soup \<Rightarrow> error + string list" where
  "get_page_links base_url soup =
     (case table_hp soup of
        None \<Rightarrow> Inl TableNotFound
      | Some trs \<Rightarrow> Inr (collect_links base_url (drop 1 trs) []))"

section \<open>Accident records\<close>

text \<open>
  The \<open>details\<close> dictionary keeps its twenty keys in insertion order (they become the
  columns of the output), so it is an association list.
\<close>

type_synonym details = "(string \<times> string) list"

definition new_details :: "string \<Rightarrow> details" where
  "new_details url =
     [(''Date'', ''''),
      (''Time'', ''''),
      (''Type'', ''''),
      (''Owner/operator'', ''''),
      (''Registration'', ''''),
      (''MSN'', ''''),
      (''Year of manufacture'', ''''),
      (''Engine model'', ''''),
      (''Fatalities'', ''''),
      (''Other fatalities'', ''''),
      (''Aircraft damage'', ''''),
      (''Category'', ''''),
      (''Location'', ''''),
      (''Phase'', ''''),
      (''Nature'', ''''),
      (''Departure airport'', ''''),
      (''Destination airport'', ''''),
      (''Investigating agency'', ''''),
      (''Confidence Rating'', ''''),
      (''URL'', url)]"

text \<open>
  \<open>tag.get_text(strip=True)\<close>: every string below the tag is stripped, the empty ones
  are dropped and the rest are joined.
\<close>

definition get_text_strip :: "cell \<Rightarrow> string" where
  "get_text_strip c = concat (filter (\<lambda>s. s \<noteq> []) (map strip c))"

text \<open>The body of \<open>for row in rows\<close> in \<open>_extract_accident_details\<close>.\<close>

definition scan_row :: "details \<Rightarrow> cell list \<Rightarrow> details" where
  "scan_row details cells =
     (if length cells \<ge> 2 then
        let key = rstrip_colon (get_text_strip (cells ! 0));
            val = get_text_strip (cells ! 1)
        in if key \<in> set (map fst details) then AList.update key val details else details
      else details)"

text \<open>What \<open>_extract_accident_details\<close> builds for \<open>url\<close> from the page it fetched.\<close>

definition details_of_page :: "string \<Rightarrow> soup \<Rightarrow> details" where
  "details_of_page url soup =
     (case tables soup of
        [] \<Rightarrow> new_details url
      | main_table # _ \<Rightarrow> foldl scan_row (new_details url) main_table)"

section \<open>The network, the log and the output file\<close>

text \<open>
  \<open>web n url\<close> is the outcome of \<open>session.get(url)\<close> when it is the \<open>n\<close>-th request the
  scraper issues: \<open>Failed\<close> when the call or \<open>raise_for_status\<close> raises a
  \<open>RequestException\<close>, otherwise the page the body parses to. The catalog may change
  between requests, so the answer depends on \<open>n\<close>. The state counts the requests,
  collects the warnings and errors logged, and holds the rows last written to the
  output file (\<open>None\<close> while it has not been written). Delays, console output,
  \<open>logging.info\<close> lines and failures of the file system are not modelled.
\<close>

datatype response = Failed | Page soup

type_synonym web = "nat \<Rightarrow> string \<Rightarrow> response"

datatype log_entry =
    Attempt_failed nat string
  | Error_analyzing int error
  | Error_processing_link string error
  | Error_processing_page int error

record state =
  clock :: nat
  log :: "log_entry list"
  csv :: "details list option"

definition max_retries :: nat where
  "max_retries = 3"

text \<open>
  \<open>_make_request\<close>, with the parse of the response's text. A loop over an empty range
  would fall through and return \<open>None\<close>, whose \<open>.text\<close> the caller cannot read.
\<close>

fun request_attempts :: "web \<Rightarrow> string \<Rightarrow> nat list \<Rightarrow> state \<Rightarrow> (error + soup) \<times> state" where
  "request_attempts w url [] s = (Inl AttributeError, s)"
| "request_attempts w url (attempt # rest) s =
     (case w (clock s) url of
        Page soup \<Rightarrow> (Inr soup, s\<lparr>clock := Suc (clock s)\<rparr>)
      | Failed \<Rightarrow>
          let s' = s\<lparr>clock := Suc (clock s),
                     log := log s @ [Attempt_failed (attempt + 1) url]\<rparr>
          in if attempt = max_retries - 1 then (Inl RequestException, s')
             else request_attempts w url rest s')"

definition make_request :: "web \<Rightarrow> string \<Rightarrow> state \<Rightarrow> (error + soup) \<times> state" where
  "make_request w url s = request_attempts w url [0..<max_retries] s"

definition extract_accident_details ::
  "web \<Rightarrow> string \<Rightarrow> state \<Rightarrow> (error + details) \<times> state" where
  "extract_accident_details w url s =
     (case make_request w url s of
        (Inl e, s') \<Rightarrow> (Inl e, s')
      | (Inr soup, s') \<Rightarrow> (Inr (details_of_page url soup), s'))"

section \<open>The crawl\<close>

text \<open>\<open>str(n)\<close> for an integer, and the listing URL \<open>f"{base_url}/database/year/{year}/{page}"\<close>.\<close>

fun str_nat :: "nat \<Rightarrow> string" where
  "str_nat n =
     (if n < 10 then [char_of (48 + n)]
      else str_nat (n div 10) @ [char_of (48 + n mod 10)])"

definition str_int :: "int \<Rightarrow> string" where
  "str_int i = (if i < 0 then CHR ''-'' # str_nat (nat (- i)) else str_nat (nat i))"

definition listing_url :: "string \<Rightarrow> int \<Rightarrow> int \<Rightarrow> string" where
  "listing_url base_url year page =
     base_url @ ''/database/year/'' @ str_int year @ ''/'' @ str_int page"

text \<open>
  The body of the \<open>try\<close> of the discovery loop up to the count of the page's links. It
  returns the total in force after the page, the end of the page's range and the
  number of links.
\<close>

definition analyze_page ::
  "web \<Rightarrow> string \<Rightarrow> int \<Rightarrow> int \<Rightarrow> int option \<Rightarrow> state \<Rightarrow> (error + (int \<times> int \<times> nat)) \<times> state" where
  "analyze_page w base_url year page total_accidents s =
     (case make_request w (listing_url base_url year page) s of
        (Inl e, s') \<Rightarrow> (Inl e, s')
      | (Inr soup, s') \<Rightarrow>
     (case get_page_info soup year page of
        Inl e \<Rightarrow> (Inl e, s')
      | Inr (page_total, start_range, end_range) \<Rightarrow>
     (case (case total_accidents of
              None \<Rightarrow> Inr page_total
            | Some t \<Rightarrow> if t \<noteq> page_total then Inl (TotalMismatch t page_total) else Inr t) of
        Inl e \<Rightarrow> (Inl e, s')
      | Inr total_accidents' \<Rightarrow>
     (case get_page_links base_url soup of
        Inl e \<Rightarrow> (Inl e, s')
      | Inr page_links \<Rightarrow> (Inr (total_accidents', end_range, length page_links), s')))))"

text \<open>
  The discovery loop. It ends when a page's range reaches the total or a page fails;
  a server that never serves such a page keeps it running, hence the fuel (one unit
  for each page).
\<close>

datatype discovery = Analysis_failed | Found int int "nat list"

fun discover ::
  "nat \<Rightarrow> web \<Rightarrow> string \<Rightarrow> int \<Rightarrow> int \<Rightarrow> int option \<Rightarrow> nat list \<Rightarrow> state
   \<Rightarrow> (discovery \<times> state) option" where
  "discover 0 w base_url year page total_accidents page_counts s = None"
| "discover (Suc fuel) w base_url year page total_accidents page_counts s =
     (case analyze_page w base_url year page total_accidents s of
        (Inl e, s') \<Rightarrow> Some (Analysis_failed, s'\<lparr>log := log s' @ [Error_analyzing page e]\<rparr>)
      | (Inr (total_accidents', end_range, n), s') \<Rightarrow>
          if end_range \<ge> total_accidents'
          then Some (Found total_accidents' page (page_counts @ [n]), s')
          else discover fuel w base_url year (page + 1) (Some total_accidents')
                 (page_counts @ [n]) s')"

text \<open>
  The head of the \<open>try\<close> of the extraction loop: the page is fetched and analyzed,
  its total and its number of links are checked. It returns the end of the page's
  range and the links.
\<close>

definition fetch_listing ::
  "web \<Rightarrow> string \<Rightarrow> int \<Rightarrow> int \<Rightarrow> int \<Rightarrow> state \<Rightarrow> (error + (int \<times> string list)) \<times> state" where
  "fetch_listing w base_url year page total_accidents s =
     (case make_request w (listing_url base_url year page) s of
        (Inl e, s') \<Rightarrow> (Inl e, s')
      | (Inr soup, s') \<Rightarrow>
     (case get_page_info soup year page of
        Inl e \<Rightarrow> (Inl e, s')
      | Inr (page_total, start_range, end_range) \<Rightarrow>
          if page_total \<noteq> total_accidents
          then (Inl (TotalChanged total_accidents page_total), s')
          else
     (case get_page_links base_url soup of
        Inl e \<Rightarrow> (Inl e, s')
      | Inr page_links \<Rightarrow>
          let expected_links = min 100 (end_range - start_range + 1)
          in if int (length page_links) \<noteq> expected_links
             then (Inl (LinkCountMismatch expected_links (length page_links)), s')
             else (Inr (end_range, page_links), s'))))"

text \<open>The loop over the links of one page; the file is rewritten after every record.\<close>

fun process_links ::
  "web \<Rightarrow> string list \<Rightarrow> details list \<Rightarrow> state \<Rightarrow> details list \<times> state" where
  "process_links w [] all_samples s = (all_samples, s)"
| "process_links w (link # links) all_samples s =
     (case extract_accident_details w link s of
        (Inr details, s') \<Rightarrow>
          let all_samples' = all_samples @ [details]
          in process_links w links all_samples' (s'\<lparr>csv := Some all_samples'\<rparr>)
      | (Inl e, s') \<Rightarrow>
          process_links w links all_samples
            (s'\<lparr>log := log s' @ [Error_processing_link link e]\<rparr>))"

text \<open>The final write after the extraction loop, and the value returned.\<close>

definition final_write :: "details list \<Rightarrow> state \<Rightarrow> details list \<times> state" where
  "final_write all_samples s = (all_samples, s\<lparr>csv := Some all_samples\<rparr>)"

fun scrape_pages ::
  "nat \<Rightarrow> web \<Rightarrow> string \<Rightarrow> int \<Rightarrow> int \<Rightarrow> int \<Rightarrow> details list \<Rightarrow> state
   \<Rightarrow> (details list \<times> state) option" where
  "scrape_pages 0 w base_url year total_accidents page all_samples s = None"
| "scrape_pages (Suc fuel) w base_url year total_accidents page all_samples s =
     (case fetch_listing w base_url year page total_accidents s of
        (Inl e, s') \<Rightarrow>
          Some (final_write all_samples (s'\<lparr>log := log s' @ [Error_processing_page page e]\<rparr>))
      | (Inr (end_range, page_links), s') \<Rightarrow>
          (case process_links w page_links all_samples s' of
             (all_samples', s'') \<Rightarrow>
               if end_range \<ge> total_accidents then Some (final_write all_samples' s'')
               else scrape_pages fuel w base_url year total_accidents (page + 1) all_samples' s''))"

text \<open>\<open>str.lower\<close> on code points below 256.\<close>

definition lower :: "string \<Rightarrow> string" where
  "lower s =
     map (\<lambda>c. let n = (of_char c :: nat)
               in if (65 \<le> n \<and> n \<le> 90) \<or> (192 \<le> n \<and> n \<le> 222 \<and> n \<noteq> 215)
                  then char_of (n + 32) else c) s"

text \<open>
  \<open>scrape_year\<close>; \<open>answer\<close> is what the user types at the prompt. An empty
  \<open>DataFrame\<close> is the empty list of rows.
\<close>

definition scrape_year ::
  "nat \<Rightarrow> web \<Rightarrow> string \<Rightarrow> string \<Rightarrow> int \<Rightarrow> state \<Rightarrow> (details list \<times> state) option" where
  "scrape_year fuel w base_url answer year s =
     (case discover fuel w base_url year 1 None [] s of
        None \<Rightarrow> None
      | Some (Analysis_failed, s') \<Rightarrow> Some ([], s')
      | Some (Found total_accidents pages page_counts, s') \<Rightarrow>
          if lower answer \<noteq> ''y'' then Some ([], s')
          else scrape_pages fuel w base_url year total_accidents 1 [] s')"

section \<open>Observations and example sites\<close>

text \<open>The entries \<open>logging.error(f"Error processing {link}: ...")\<close> writes.\<close>

fun link_error :: "log_entry \<Rightarrow> bool" where
  "link_error (Error_processing_link link e) = True"
| "link_error _ = False"

text \<open>
  Pages and sites for the examples: the default \<open>base_url\<close>, a listing page with a
  caption, a header row and one row for each link, a detail page whose first table has
  one row for each pair, and a site that always answers a URL with the same page and
  fails for every other URL.
\<close>

definition asn :: string where
  "asn = ''https://asn.flightsafety.org''"

definition listing_page :: "string \<Rightarrow> string list \<Rightarrow> soup" where
  "listing_page caption hrefs =
     \<lparr>content_wrapper = Some (Some caption),
      table_hp = Some (None # map (\<lambda>href. Some (Some href)) hrefs),
      tables = []\<rparr>"

definition detail_page :: "(string \<times> string) list \<Rightarrow> soup" where
  "detail_page rows =
     \<lparr>content_wrapper = None, table_hp = None,
      tables = [map (\<lambda>(k, v). [[k], [v]]) rows]\<rparr>"

definition serve :: "(string \<times> soup) list \<Rightarrow> web" where
  "serve pages n url = (case map_of pages url of Some page \<Rightarrow> Page page | None \<Rightarrow> Failed)"

definition steady_site :: web where
  "steady_site = serve
     [(asn @ ''/database/year/2024/1'', listing_page ''showing occurrence 1-20 of 50 occurrences'' []),
      (asn @ ''/database/year/2024/2'', listing_page ''showing occurrence 21-40 of 50 occurrences'' []),
      (asn @ ''/database/year/2024/3'', listing_page ''showing occurrence 41-50 of 50 occurrences'' [])]"

definition shrunk_site :: web where
  "shrunk_site = serve
     [(asn @ ''/database/year/2024/1'', listing_page ''showing occurrence 1-20 of 50 occurrences'' []),
      (asn @ ''/database/year/2024/2'', listing_page ''showing occurrence 21-40 of 50 occurrences'' []),
      (asn @ ''/database/year/2024/3'', listing_page ''showing occurrence 41-48 of 48 occurrences'' [])]"

definition dead_link_site :: web where
  "dead_link_site = serve
     [(asn @ ''/database/year/2024/1'',
         listing_page ''showing occurrence 1-2 of 3 occurrences'' [''/wikibase/1'', ''/wikibase/2'']),
      (asn @ ''/database/year/2024/2'',
         listing_page ''showing occurrence 3-3 of 3 occurrences'' [''/wikibase/3'']),
      (asn @ ''/wikibase/1'', detail_page [(''Date:'', ''2024-01-05'')]),
      (asn @ ''/wikibase/3'', detail_page [(''Date:'', ''2024-03-09'')])]"

definition broken_site :: web where
  "broken_site = serve
     [(asn @ ''/database/year/2024/1'',
         listing_page ''showing occurrence 1-2 of 3 occurrences'' [''/wikibase/1'', ''/wikibase/2'']),
      (asn @ ''/database/year/2024/2'', detail_page []),
      (asn @ ''/wikibase/1'', detail_page [(''Date:'', ''2024-01-05'')]),
      (asn @ ''/wikibase/2'', detail_page [(''Date:'', ''2024-02-07'')])]"

definition start :: state where
  "start = \<lparr>clock = 0, log = [], csv = None\<rparr>"

section \<open>The page analyzer\<close>

subsection \<open>Greedy matching on runs of digits and blanks\<close>

lemma digit_not_space: "is_digit c \<Longrightarrow> \<not> is_space c"
  by (auto simp: is_digit_def is_space_def Let_def)

lemma first_some_None: "(\<And>x. x \<in> set xs \<Longrightarrow> f x = None) \<Longrightarrow> first_some f xs = None"
  by (induction xs) auto

lemma first_some_longest:
  "lo \<le> k \<Longrightarrow> f k = Some y \<Longrightarrow> first_some f (rev [lo..<Suc k]) = Some y"
  by simp

lemma takeWhile_run:
  "list_all cls ds \<Longrightarrow> takeWhile cls rest = [] \<Longrightarrow> takeWhile cls (ds @ rest) = ds"
  by (induction ds) auto

lemma greedy_run:
  "list_all cls ds \<Longrightarrow> takeWhile cls rest = [] \<Longrightarrow>
   greedy cls lo (ds @ rest) = rev [lo..<Suc (length ds)]"
  by (simp add: greedy_def takeWhile_run)

lemma takeWhile_space_digits:
  "list_all is_digit ds \<Longrightarrow> ds \<noteq> [] \<Longrightarrow> takeWhile is_space (ds @ rest) = []"
  by (cases ds) (auto simp: digit_not_space)

text \<open>A run of digits followed by something else: the group takes the whole run.\<close>

lemma match_digits_run:
  assumes "list_all is_digit ds" "ds \<noteq> []" "takeWhile is_digit rest = []"
    and "match_here ts rest = Some g"
  shows "match_here (Digits # ts) (ds @ rest) = Some (ds # g)"
proof -
  have "1 \<le> length ds" using assms(2) by (cases ds) auto
  then have "first_some (\<lambda>n. map_option ((#) (take n (ds @ rest))) (match_here ts (drop n (ds @ rest))))
               (rev [1..<Suc (length ds)]) = Some (ds # g)"
    by (rule first_some_longest) (simp add: assms(4))
  then show ?thesis using assms(1,3) by (simp add: greedy_run del: upt_Suc)
qed

lemma match_spaces0_none:
  "takeWhile is_space s = [] \<Longrightarrow> match_here (Spaces0 # ts) s = match_here ts s"
  by (simp add: greedy_def split: option.splits)

lemma match_spaces1_one:
  "is_space c \<Longrightarrow> takeWhile is_space s = [] \<Longrightarrow> match_here ts s = Some g \<Longrightarrow>
   match_here (Spaces1 # ts) (c # s) = Some g"
  by (simp add: greedy_def)

lemma match_lit:
  "match_here (Lit l # ts) (l @ s) = match_here ts s"
  by simp

text \<open>The total pattern does not match inside or at a run of digits that the word does not follow.\<close>

lemma occurrences_not_at_digit:
  "is_digit d \<Longrightarrow> match_here [Spaces0, Lit ''occurrences''] (d # xs) = None"
  by (auto simp: greedy_def digit_not_space is_digit_def)

lemma total_re_fails_at_digits:
  assumes "list_all is_digit ds" "takeWhile is_digit rest = []"
    and "match_here [Spaces0, Lit ''occurrences''] rest = None"
  shows "match_here total_re (ds @ rest) = None"
proof -
  let ?f = "\<lambda>n. map_option ((#) (take n (ds @ rest)))
                (match_here [Spaces0, Lit ''occurrences''] (drop n (ds @ rest)))"
  have "?f n = None" if "n \<in> set (rev [1..<Suc (length ds)])" for n
  proof (cases "n < length ds")
    case True
    then obtain d xs where dx: "drop n ds = d # xs" by (cases "drop n ds") auto
    then have "d \<in> set ds" by (metis in_set_dropD list.set_intros(1))
    then have "is_digit d" using assms(1) by (simp add: list_all_iff)
    then show ?thesis using True dx occurrences_not_at_digit [of d "xs @ rest"] by simp
  next
    case False
    then have "n = length ds" using that by auto
    then show ?thesis using assms(3) by simp
  qed
  then have "first_some ?f (rev [1..<Suc (length ds)]) = None"
    by (rule first_some_None)
  then show ?thesis
    using assms(1,2) by (simp add: total_re_def greedy_run del: upt_Suc match_here.simps(2)) (simp del: upt_Suc add: greedy_run)
qed


subsection \<open>Searching the two caption shapes\<close>

lemma search_found: "match_here p s = Some g \<Longrightarrow> search p s = Some g"
  by (cases s) auto

lemma search_total_skip:
  "\<not> is_digit c \<Longrightarrow> search total_re (c # cs) = search total_re cs"
  by (simp add: total_re_def greedy_def)

lemma search_total_skip_digits:
  assumes "list_all is_digit ds" "takeWhile is_digit rest = []"
    and "match_here [Spaces0, Lit ''occurrences''] rest = None"
  shows "search total_re (ds @ rest) = search total_re rest"
  using assms(1)
proof (induction ds)
  case Nil
  then show ?case by simp
next
  case (Cons d ds)
  have "match_here total_re ((d # ds) @ rest) = None"
    using Cons.prems assms(2,3) by (rule total_re_fails_at_digits)
  then show ?case using Cons by simp
qed

lemma search_range_skip:
  "c \<noteq> CHR ''s'' \<Longrightarrow> search range_re (c # cs) = search range_re cs"
  by (auto simp: range_re_def)

lemma search_range_skip_digits:
  "list_all is_digit ds \<Longrightarrow> search range_re (ds @ rest) = search range_re rest"
proof (induction ds)
  case Nil
  then show ?case by simp
next
  case (Cons d ds)
  then have "d \<noteq> CHR ''s''" by (auto simp: is_digit_def)
  then show ?case using Cons by (simp del: search.simps add: search_range_skip)
qed

lemma total_of_bare_form:
  assumes "list_all is_digit n" "n \<noteq> []"
  shows "search total_re (n @ '' occurrences'') = Some [n]"
proof -
  have "match_here [Spaces0, Lit ''occurrences''] '' occurrences'' = Some []"
    by (simp add: greedy_def is_space_def)
  then have "match_here total_re (n @ '' occurrences'') = Some [n]"
    unfolding total_re_def using assms
    by (intro match_digits_run) (simp_all add: is_digit_def)
  then show ?thesis by (rule search_found)
qed

lemma range_of_bare_form:
  assumes "list_all is_digit n"
  shows "search range_re (n @ '' occurrences'') = None"
proof -
  have "search range_re '' occurrences'' = None"
    by (simp add: range_re_def)
  then show ?thesis using assms by (simp only: search_range_skip_digits)
qed

lemma total_of_range_form:
  assumes "list_all is_digit a" "list_all is_digit b" "list_all is_digit n" "n \<noteq> []"
  shows "search total_re (''showing occurrence '' @ a @ ''-'' @ b @ '' of '' @ n @ '' occurrences'')
         = Some [n]"
proof -
  let ?r3 = "n @ '' occurrences''"
  let ?r2 = "b @ '' of '' @ ?r3"
  let ?r1 = "a @ ''-'' @ ?r2"
  have "search total_re (''showing occurrence '' @ ?r1) = search total_re ?r1"
    by (simp del: search.simps add: search_total_skip is_digit_def)
  also have "\<dots> = search total_re (''-'' @ ?r2)"
    using assms(1) by (intro search_total_skip_digits) (simp_all add: greedy_def is_digit_def is_space_def)
  also have "\<dots> = search total_re ?r2"
    by (simp del: search.simps add: search_total_skip is_digit_def)
  also have "\<dots> = search total_re ('' of '' @ ?r3)"
    using assms(2) by (intro search_total_skip_digits) (simp_all add: greedy_def is_digit_def is_space_def)
  also have "\<dots> = search total_re ?r3"
    by (simp del: search.simps add: search_total_skip is_digit_def)
  also have "\<dots> = Some [n]"
    using assms(3,4) by (rule total_of_bare_form)
  finally show ?thesis .
qed

lemma range_of_range_form:
  assumes "list_all is_digit a" "a \<noteq> []" "list_all is_digit b" "b \<noteq> []"
  shows "search range_re (''showing occurrence '' @ a @ ''-'' @ b @ '' of '' @ rest) = Some [a, b]"
proof -
  have b: "match_here [Digits] (b @ '' of '' @ rest) = Some [b]"
    using assms(3,4) by (intro match_digits_run) (simp_all add: is_digit_def)
  have ws: "takeWhile is_space (b @ '' of '' @ rest) = []"
    using assms(3,4) by (rule takeWhile_space_digits)
  have "match_here [Spaces0, Digits] (b @ '' of '' @ rest) = Some [b]"
    by (simp only: match_spaces0_none [OF ws] b)
  then have "match_here [Spaces0, Lit ''-'', Spaces0, Digits] (''-'' @ b @ '' of '' @ rest) = Some [b]"
    by (simp add: greedy_def is_space_def)
  then have "match_here [Digits, Spaces0, Lit ''-'', Spaces0, Digits]
               (a @ ''-'' @ b @ '' of '' @ rest) = Some [a, b]"
    using assms(1,2) by (intro match_digits_run) (simp_all add: is_digit_def)
  moreover have "is_space (CHR '' '')"
    by (simp add: is_space_def)
  moreover have "takeWhile is_space (a @ ''-'' @ b @ '' of '' @ rest) = []"
    using assms(1,2) by (rule takeWhile_space_digits)
  ultimately have "match_here [Spaces1, Digits, Spaces0, Lit ''-'', Spaces0, Digits]
               (CHR '' '' # a @ ''-'' @ b @ '' of '' @ rest) = Some [a, b]"
    by (intro match_spaces1_one)
  then have "match_here range_re (''showing occurrence'' @ CHR '' '' # a @ ''-'' @ b @ '' of '' @ rest)
             = Some [a, b]"
    unfolding range_re_def by (simp only: match_lit)
  then have "search range_re (''showing occurrence'' @ CHR '' '' # a @ ''-'' @ b @ '' of '' @ rest)
             = Some [a, b]"
    by (rule search_found)
  then show ?thesis by (simp del: search.simps)
qed


subsection \<open>What the analyzer returns\<close>

lemma py_int_value:
  "py_int ds = Inr D \<longleftrightarrow> length ds \<le> 4300 \<and> D = digits_value ds"
  by (auto simp: py_int_def int_max_str_digits_def)

lemma page_info_of_caption:
  "get_page_info (soup\<lparr>content_wrapper := Some (Some caption)\<rparr>) year page =
     (case search total_re caption of
        None \<Rightarrow> Inl (TotalNotFound caption)
      | Some tm \<Rightarrow>
     (case py_int (group tm 1) of
        Inl e \<Rightarrow> Inl e
      | Inr N \<Rightarrow>
     (case search range_re caption of
        Some rm \<Rightarrow>
          (case py_int (group rm 1) of
             Inl e \<Rightarrow> Inl e
           | Inr A \<Rightarrow>
          (case py_int (group rm 2) of
             Inl e \<Rightarrow> Inl e
           | Inr B \<Rightarrow>
               if 1 \<le> A \<and> A \<le> B \<and> B \<le> N then Inr (N, A, B)
               else Inl (InvalidRange A B N)))
      | None \<Rightarrow>
          if 1 \<le> N then Inr (N, 1, min 100 N)
          else Inl (InvalidRange 1 (min 100 N) N))))"
  by (auto simp: get_page_info_def split: option.splits sum.splits)

lemma page_info_range_form:
  assumes "list_all is_digit a" "a \<noteq> []" "list_all is_digit b" "b \<noteq> []"
    and "list_all is_digit n" "n \<noteq> []"
    and "py_int a = Inr A" "py_int b = Inr B" "py_int n = Inr N"
  shows "get_page_info
           (soup\<lparr>content_wrapper :=
              Some (Some (''showing occurrence '' @ a @ ''-'' @ b @ '' of '' @ n @ '' occurrences''))\<rparr>)
           year page =
         (if 1 \<le> A \<and> A \<le> B \<and> B \<le> N then Inr (N, A, B) else Inl (InvalidRange A B N))"
  by (simp only: page_info_of_caption total_of_range_form [OF assms(1,3,5,6)]
        range_of_range_form [OF assms(1,2,3,4)] group_def)
     (simp add: assms(7,8,9))

lemma page_info_bare_form:
  assumes "list_all is_digit n" "n \<noteq> []"
  shows "get_page_info (soup\<lparr>content_wrapper := Some (Some (n @ '' occurrences''))\<rparr>) year page =
         (case py_int n of
            Inl e \<Rightarrow> Inl e
          | Inr N \<Rightarrow>
              if 1 \<le> N then Inr (N, 1, min 100 N) else Inl (InvalidRange 1 (min 100 N) N))"
  by (simp only: page_info_of_caption total_of_bare_form [OF assms]
        range_of_bare_form [OF assms(1)] group_def)
     (simp split: sum.splits)

text \<open>
  Claim C2, as amended. Let \<open>a\<close>, \<open>b\<close>, \<open>n\<close> and \<open>m\<close> be non-empty strings of decimal
  digits that \<open>int\<close> reads as the numbers \<open>A\<close>, \<open>B\<close>, \<open>N\<close> and \<open>M\<close>, which it does
  exactly when they have at most 4300 digits.
  \<^item> For the caption \<open>showing occurrence a-b of n occurrences\<close> with \<open>1 \<le> A \<le> B \<le> N\<close> the
    analyzer returns \<open>(N, A, B)\<close>.
  \<^item> For the bare caption \<open>m occurrences\<close> with \<open>1 \<le> M\<close> it returns \<open>(M, 1, min 100 M)\<close>.
  \<^item> So it does for any caption in which the count pattern (digits, optional blanks,
    the word \<open>occurrences\<close>) is found and the range pattern (\<open>showing occurrence\<close>, blanks,
    digits, a dash, digits) is not: with \<open>M\<close> the number in front of the first
    \<open>occurrences\<close> so found and \<open>1 \<le> M\<close> it returns \<open>(M, 1, min 100 M)\<close>.
  \<^item> For a caption in which the count pattern is found nowhere it raises "Could not
    find total occurrences".
  \<^item> For a page without a caption it raises "Caption not found", and for a page without
    the content container "Content wrapper not found".
  The last three are the errors the specification calls \<open>ParseError\<close>.
\<close>

theorem caption_shapes:
  "(list_all is_digit a \<and> a \<noteq> [] \<and> list_all is_digit b \<and> b \<noteq> [] \<and> list_all is_digit n \<and> n \<noteq> []
      \<and> py_int a = Inr A \<and> py_int b = Inr B \<and> py_int n = Inr N
      \<and> 1 \<le> A \<and> A \<le> B \<and> B \<le> N \<longrightarrow>
    get_page_info
      (soup\<lparr>content_wrapper :=
         Some (Some (''showing occurrence '' @ a @ ''-'' @ b @ '' of '' @ n @ '' occurrences''))\<rparr>)
      year page
    = Inr (N, A, B))
   \<and> (list_all is_digit m \<and> m \<noteq> [] \<and> py_int m = Inr M \<and> 1 \<le> M \<longrightarrow>
      get_page_info (soup\<lparr>content_wrapper := Some (Some (m @ '' occurrences''))\<rparr>) year page
      = Inr (M, 1, min 100 M))
   \<and> (search total_re caption = Some total_match \<and> search range_re caption = None
        \<and> py_int (group total_match 1) = Inr M' \<and> 1 \<le> M' \<longrightarrow>
      get_page_info (soup\<lparr>content_wrapper := Some (Some caption)\<rparr>) year page
      = Inr (M', 1, min 100 M'))
   \<and> (search total_re caption = None \<longrightarrow>
      get_page_info (soup\<lparr>content_wrapper := Some (Some caption)\<rparr>) year page
      = Inl (TotalNotFound caption))
   \<and> get_page_info (soup\<lparr>content_wrapper := Some None\<rparr>) year page = Inl CaptionNotFound
   \<and> get_page_info (soup\<lparr>content_wrapper := None\<rparr>) year page = Inl ContentWrapperNotFound
   \<and> (py_int ds = Inr D \<longleftrightarrow> length ds \<le> 4300 \<and> D = digits_value ds)"
proof -
  have ranged: "list_all is_digit a \<and> a \<noteq> [] \<and> list_all is_digit b \<and> b \<noteq> []
      \<and> list_all is_digit n \<and> n \<noteq> []
      \<and> py_int a = Inr A \<and> py_int b = Inr B \<and> py_int n = Inr N
      \<and> 1 \<le> A \<and> A \<le> B \<and> B \<le> N \<longrightarrow>
    get_page_info
      (soup\<lparr>content_wrapper :=
         Some (Some (''showing occurrence '' @ a @ ''-'' @ b @ '' of '' @ n @ '' occurrences''))\<rparr>)
      year page
    = Inr (N, A, B)"
  proof
    assume h: "list_all is_digit a \<and> a \<noteq> [] \<and> list_all is_digit b \<and> b \<noteq> []
      \<and> list_all is_digit n \<and> n \<noteq> []
      \<and> py_int a = Inr A \<and> py_int b = Inr B \<and> py_int n = Inr N
      \<and> 1 \<le> A \<and> A \<le> B \<and> B \<le> N"
    then have d: "list_all is_digit a" "a \<noteq> []" "list_all is_digit b" "b \<noteq> []"
        "list_all is_digit n" "n \<noteq> []" "py_int a = Inr A" "py_int b = Inr B" "py_int n = Inr N"
      and v: "1 \<le> A \<and> A \<le> B \<and> B \<le> N"
      by simp_all
    show "get_page_info
        (soup\<lparr>content_wrapper :=
           Some (Some (''showing occurrence '' @ a @ ''-'' @ b @ '' of '' @ n @ '' occurrences''))\<rparr>)
        year page
      = Inr (N, A, B)"
      using v by (simp only: page_info_range_form [OF d]) simp
  qed
  have bare: "list_all is_digit m \<and> m \<noteq> [] \<and> py_int m = Inr M \<and> 1 \<le> M \<longrightarrow>
      get_page_info (soup\<lparr>content_wrapper := Some (Some (m @ '' occurrences''))\<rparr>) year page
      = Inr (M, 1, min 100 M)"
  proof
    assume h: "list_all is_digit m \<and> m \<noteq> [] \<and> py_int m = Inr M \<and> 1 \<le> M"
    then have d: "list_all is_digit m" "m \<noteq> []" and v: "py_int m = Inr M" "1 \<le> M"
      by simp_all
    show "get_page_info (soup\<lparr>content_wrapper := Some (Some (m @ '' occurrences''))\<rparr>) year page
        = Inr (M, 1, min 100 M)"
      using v by (simp only: page_info_bare_form [OF d]) simp
  qed
  have unranged: "search total_re caption = Some total_match \<and> search range_re caption = None
        \<and> py_int (group total_match 1) = Inr M' \<and> 1 \<le> M' \<longrightarrow>
      get_page_info (soup\<lparr>content_wrapper := Some (Some caption)\<rparr>) year page
      = Inr (M', 1, min 100 M')"
    by (simp only: page_info_of_caption) simp
  have uncounted: "search total_re caption = None \<longrightarrow>
      get_page_info (soup\<lparr>content_wrapper := Some (Some caption)\<rparr>) year page
      = Inl (TotalNotFound caption)"
    by (simp only: page_info_of_caption) simp
  have no_caption:
    "get_page_info (soup\<lparr>content_wrapper := Some None\<rparr>) year page = Inl CaptionNotFound"
    by (simp add: get_page_info_def)
  have no_wrapper:
    "get_page_info (soup\<lparr>content_wrapper := None\<rparr>) year page = Inl ContentWrapperNotFound"
    by (simp add: get_page_info_def)
  have limit: "py_int ds = Inr D \<longleftrightarrow> length ds \<le> 4300 \<and> D = digits_value ds"
    by (rule py_int_value)
  from ranged bare unranged uncounted no_caption no_wrapper limit show ?thesis
    by (intro conjI)
qed

text \<open>
  The statement at the captions of a full page, of a short first page, of a page whose
  caption gives a count and no range, and of an error page.
\<close>

theorem caption_shapes_witness:
  "get_page_info
     \<lparr>content_wrapper = Some (Some ''showing occurrence 1-100 of 250 occurrences''),
      table_hp = None, tables = []\<rparr> 2024 1
   = Inr (250, 1, 100)
   \<and> get_page_info
       \<lparr>content_wrapper = Some (Some ''57 occurrences''), table_hp = None, tables = []\<rparr> 2024 1
     = Inr (57, 1, 57)
   \<and> get_page_info
       \<lparr>content_wrapper = Some (Some ''12 occurrences found''), table_hp = None, tables = []\<rparr> 2024 1
     = Inr (12, 1, 12)
   \<and> get_page_info
       \<lparr>content_wrapper = Some (Some ''Page not available''), table_hp = None, tables = []\<rparr> 2024 1
     = Inl (TotalNotFound ''Page not available'')"
proof -
  let ?soup = "\<lparr>content_wrapper = None, table_hp = None, tables = []\<rparr>"
  note ranged = caption_shapes [where a = "''1''" and b = "''100''" and n = "''250''"
      and A = 1 and B = 100 and N = 250 and soup = ?soup and year = 2024 and page = 1]
  note bare = caption_shapes [where m = "''57''" and M = 57 and soup = ?soup
      and year = 2024 and page = 1]
  note unranged = caption_shapes [where caption = "''12 occurrences found''"
      and total_match = "[''12'']" and M' = 12 and soup = ?soup and year = 2024 and page = 1]
  note uncounted = caption_shapes [where caption = "''Page not available''" and soup = ?soup
      and year = 2024 and page = 1]
  have digits: "list_all is_digit ''1''" "list_all is_digit ''100''" "list_all is_digit ''250''"
    "list_all is_digit ''57''"
    by (simp_all add: is_digit_def)
  have vals: "py_int ''1'' = Inr 1" "py_int ''100'' = Inr 100" "py_int ''250'' = Inr 250"
    "py_int ''57'' = Inr 57" "py_int ''12'' = Inr 12"
    by (simp_all add: py_int_def int_max_str_digits_def digits_value_def digit_val_def)
  have found: "search total_re ''12 occurrences found'' = Some [''12'']"
    by (simp add: total_re_def greedy_def is_digit_def is_space_def)
  have no_range: "search range_re ''12 occurrences found'' = None"
    by (simp add: range_re_def)
  have none: "search total_re ''Page not available'' = None"
    by (simp add: total_re_def greedy_def is_digit_def)
  have first: "get_page_info
     \<lparr>content_wrapper = Some (Some ''showing occurrence 1-100 of 250 occurrences''),
      table_hp = None, tables = []\<rparr> 2024 1
   = Inr (250, 1, 100)"
    using ranged digits vals by (simp del: search.simps)
  have second: "get_page_info
       \<lparr>content_wrapper = Some (Some ''57 occurrences''), table_hp = None, tables = []\<rparr> 2024 1
     = Inr (57, 1, 57)"
    using bare digits vals by (simp del: search.simps)
  have third: "get_page_info
       \<lparr>content_wrapper = Some (Some ''12 occurrences found''), table_hp = None, tables = []\<rparr> 2024 1
     = Inr (12, 1, 12)"
    using unranged found no_range vals by (simp del: search.simps add: group_def)
  have fourth: "get_page_info
       \<lparr>content_wrapper = Some (Some ''Page not available''), table_hp = None, tables = []\<rparr> 2024 1
     = Inl (TotalNotFound ''Page not available'')"
    using uncounted none by (simp del: search.simps)
  from first second third fourth show ?thesis by (intro conjI)
qed

text \<open>
  Claim C2 as it was stated fails in four ways.
  \<^item> The bare caption of a year without records, \<open>0 occurrences\<close>, does not yield
    \<open>(0, 1, min 100 0)\<close>: the range check rejects it.
  \<^item> The range caption \<open>showing occurrence 5-3 of 250 occurrences\<close> does not yield
    \<open>(250, 5, 3)\<close>: the range check rejects it.
  \<^item> The caption \<open>showing occurrence 5 of 250 occurrences\<close> has neither shape, and it does
    not fail: the count pattern finds \<open>250\<close>, the range pattern finds nothing, and the
    page is read as the first page of 250 records.
  \<^item> A bare caption whose count has 4301 digits yields no triple: \<open>int\<close> raises.
\<close>

theorem caption_claim_counterexamples:
  "py_int ''0'' = Inr 0
   \<and> get_page_info
       \<lparr>content_wrapper = Some (Some ''0 occurrences''), table_hp = None, tables = []\<rparr> 2024 1
     = Inl (InvalidRange 1 0 0)
   \<and> get_page_info
       \<lparr>content_wrapper = Some (Some ''showing occurrence 5-3 of 250 occurrences''),
        table_hp = None, tables = []\<rparr> 2024 1
     = Inl (InvalidRange 5 3 250)
   \<and> \<not> (\<exists>a b n. ''showing occurrence 5 of 250 occurrences''
                  = ''showing occurrence '' @ a @ ''-'' @ b @ '' of '' @ n @ '' occurrences'')
   \<and> \<not> (\<exists>n. list_all is_digit n
             \<and> ''showing occurrence 5 of 250 occurrences'' = n @ '' occurrences'')
   \<and> get_page_info
       \<lparr>content_wrapper = Some (Some ''showing occurrence 5 of 250 occurrences''),
        table_hp = None, tables = []\<rparr> 2024 1
     = Inr (250, 1, 100)
   \<and> list_all is_digit (replicate 4301 (CHR ''9''))
   \<and> get_page_info
       \<lparr>content_wrapper = Some (Some (replicate 4301 (CHR ''9'') @ '' occurrences'')),
        table_hp = None, tables = []\<rparr> 2024 1
     = Inl (IntStringTooLong 4301)"
proof -
  let ?soup = "\<lparr>content_wrapper = None, table_hp = None, tables = []\<rparr>"
  let ?nines = "replicate 4301 (CHR ''9'')"
  have zero: "py_int ''0'' = Inr 0"
    by (simp add: py_int_def int_max_str_digits_def digits_value_def digit_val_def)
  have vals: "py_int ''5'' = Inr 5" "py_int ''3'' = Inr 3" "py_int ''250'' = Inr 250"
    by (simp_all add: py_int_def int_max_str_digits_def digits_value_def digit_val_def)
  have digits: "list_all is_digit ''0''" "list_all is_digit ''5''" "list_all is_digit ''3''"
    "list_all is_digit ''250''"
    by (simp_all add: is_digit_def)
  have empty: "get_page_info
       \<lparr>content_wrapper = Some (Some ''0 occurrences''), table_hp = None, tables = []\<rparr> 2024 1
     = Inl (InvalidRange 1 0 0)"
    using page_info_bare_form [of "''0''" ?soup 2024 1] digits zero
    by (simp del: search.simps)
  have reversed: "get_page_info
       \<lparr>content_wrapper = Some (Some ''showing occurrence 5-3 of 250 occurrences''),
        table_hp = None, tables = []\<rparr> 2024 1
     = Inl (InvalidRange 5 3 250)"
    using page_info_range_form [of "''5''" "''3''" "''250''" 5 3 250 ?soup 2024 1] digits vals
    by (simp del: search.simps)
  have not_ranged: "\<not> (\<exists>a b n. ''showing occurrence 5 of 250 occurrences''
                  = ''showing occurrence '' @ a @ ''-'' @ b @ '' of '' @ n @ '' occurrences'')"
  proof
    assume "\<exists>a b n. ''showing occurrence 5 of 250 occurrences''
                  = ''showing occurrence '' @ a @ ''-'' @ b @ '' of '' @ n @ '' occurrences''"
    then obtain a b n where "''showing occurrence 5 of 250 occurrences''
                  = ''showing occurrence '' @ a @ ''-'' @ b @ '' of '' @ n @ '' occurrences''"
      by blast
    then have "set ''showing occurrence 5 of 250 occurrences''
                  = set (''showing occurrence '' @ a @ ''-'' @ b @ '' of '' @ n @ '' occurrences'')"
      by (rule arg_cong)
    moreover have "CHR ''-'' \<in> set (''showing occurrence '' @ a @ ''-'' @ b @ '' of '' @ n @ '' occurrences'')"
      by simp
    moreover have "CHR ''-'' \<notin> set ''showing occurrence 5 of 250 occurrences''"
      by simp
    ultimately show False by simp
  qed
  have not_bare: "\<not> (\<exists>n. list_all is_digit n
             \<and> ''showing occurrence 5 of 250 occurrences'' = n @ '' occurrences'')"
  proof
    assume "\<exists>n. list_all is_digit n
             \<and> ''showing occurrence 5 of 250 occurrences'' = n @ '' occurrences''"
    then obtain n where n: "list_all is_digit n"
        "''showing occurrence 5 of 250 occurrences'' = n @ '' occurrences''"
      by blast
    have "''showing occurrence 5 of 250'' @ '' occurrences''
            = ''showing occurrence 5 of 250 occurrences''"
      by simp
    from this n(2) have "''showing occurrence 5 of 250'' @ '' occurrences'' = n @ '' occurrences''"
      by (rule trans)
    then have "''showing occurrence 5 of 250'' = n"
      by (simp only: append_same_eq)
    with n(1) have "list_all is_digit ''showing occurrence 5 of 250''"
      by (simp only:)
    then show False by (simp add: is_digit_def)
  qed
  have found: "search total_re ''showing occurrence 5 of 250 occurrences'' = Some [''250'']"
    by (simp add: total_re_def greedy_def is_digit_def is_space_def)
  have no_range: "search range_re ''showing occurrence 5 of 250 occurrences'' = None"
    by (simp add: range_re_def greedy_def is_digit_def is_space_def)
  have unranged: "get_page_info
       \<lparr>content_wrapper = Some (Some ''showing occurrence 5 of 250 occurrences''),
        table_hp = None, tables = []\<rparr> 2024 1
     = Inr (250, 1, 100)"
    using page_info_of_caption [where soup = ?soup
          and caption = "''showing occurrence 5 of 250 occurrences''" and year = 2024 and page = 1]
      found no_range vals
    by (simp del: search.simps add: group_def)
  have nines: "list_all is_digit ?nines"
    by (simp add: list_all_iff is_digit_def)
  have nonempty: "?nines \<noteq> []"
    by simp
  have long: "py_int ?nines = Inl (IntStringTooLong 4301)"
    by (simp add: py_int_def int_max_str_digits_def)
  have too_long: "get_page_info
       \<lparr>content_wrapper = Some (Some (?nines @ '' occurrences'')),
        table_hp = None, tables = []\<rparr> 2024 1
     = Inl (IntStringTooLong 4301)"
    using page_info_bare_form [OF nines nonempty, of ?soup 2024 1] long
    by (simp del: search.simps replicate.simps)
  from zero empty reversed not_ranged not_bare unranged nines too_long show ?thesis
    by (intro conjI)
qed

subsection \<open>The range check\<close>

lemma page_info_returns_valid:
  assumes "get_page_info soup year page = Inr (n, a, b)"
  shows "1 \<le> a \<and> a \<le> b \<and> b \<le> n"
  using assms
  by (auto simp: get_page_info_def split: option.splits sum.splits if_splits prod.splits)

lemma page_info_rejects_parsed:
  assumes "content_wrapper soup = Some (Some caption)"
    and "search total_re caption = Some total_match"
    and "py_int (group total_match 1) = Inr N"
    and "case search range_re caption of
           Some range_match \<Rightarrow>
             py_int (group range_match 1) = Inr A \<and> py_int (group range_match 2) = Inr B
         | None \<Rightarrow> A = 1 \<and> B = min 100 N"
    and "\<not> (1 \<le> A \<and> A \<le> B \<and> B \<le> N)"
  shows "get_page_info soup year page = Inl (InvalidRange A B N)"
  using assms
  by (auto simp: get_page_info_def split: option.splits)

text \<open>
  Claim C3. Let \<open>N\<close> be the total the analyzer reads where the count pattern matches in
  the caption and \<open>(A, B)\<close> the range it reads where the range pattern matches, or
  \<open>(1, min 100 N)\<close> when that pattern matches nowhere; the numbers are read by \<open>int\<close>,
  which takes at most 4300 digits.
  If \<open>1 \<le> A \<le> B \<le> N\<close> does not hold, the analyzer raises "Invalid range: A-B of N",
  the error the specification calls \<open>ValidationError\<close>. So it does in particular for the
  caption \<open>showing occurrence a-b of n occurrences\<close>, and whatever the page, a triple it
  returns satisfies \<open>1 \<le> A \<le> B \<le> N\<close>.
\<close>

theorem invalid_range_rejected:
  "(content_wrapper soup = Some (Some caption) \<and> search total_re caption = Some total_match
      \<and> py_int (group total_match 1) = Inr N
      \<and> (case search range_re caption of
           Some range_match \<Rightarrow>
             py_int (group range_match 1) = Inr A \<and> py_int (group range_match 2) = Inr B
         | None \<Rightarrow> A = 1 \<and> B = min 100 N)
      \<and> \<not> (1 \<le> A \<and> A \<le> B \<and> B \<le> N) \<longrightarrow>
    get_page_info soup year page = Inl (InvalidRange A B N))
   \<and> (list_all is_digit a \<and> a \<noteq> [] \<and> list_all is_digit b \<and> b \<noteq> [] \<and> list_all is_digit n \<and> n \<noteq> []
        \<and> py_int a = Inr Aa \<and> py_int b = Inr Bb \<and> py_int n = Inr Nn
        \<and> \<not> (1 \<le> Aa \<and> Aa \<le> Bb \<and> Bb \<le> Nn) \<longrightarrow>
      get_page_info
        (soup\<lparr>content_wrapper :=
           Some (Some (''showing occurrence '' @ a @ ''-'' @ b @ '' of '' @ n @ '' occurrences''))\<rparr>)
        year page
      = Inl (InvalidRange Aa Bb Nn))
   \<and> (get_page_info soup year page = Inr (N', A', B') \<longrightarrow> 1 \<le> A' \<and> A' \<le> B' \<and> B' \<le> N')"
proof -
  have parsed: "content_wrapper soup = Some (Some caption) \<and> search total_re caption = Some total_match
      \<and> py_int (group total_match 1) = Inr N
      \<and> (case search range_re caption of
           Some range_match \<Rightarrow>
             py_int (group range_match 1) = Inr A \<and> py_int (group range_match 2) = Inr B
         | None \<Rightarrow> A = 1 \<and> B = min 100 N)
      \<and> \<not> (1 \<le> A \<and> A \<le> B \<and> B \<le> N) \<longrightarrow>
    get_page_info soup year page = Inl (InvalidRange A B N)"
    using page_info_rejects_parsed [of soup caption total_match N A B year page] by blast
  have shaped: "list_all is_digit a \<and> a \<noteq> [] \<and> list_all is_digit b \<and> b \<noteq> [] \<and> list_all is_digit n \<and> n \<noteq> []
        \<and> py_int a = Inr Aa \<and> py_int b = Inr Bb \<and> py_int n = Inr Nn
        \<and> \<not> (1 \<le> Aa \<and> Aa \<le> Bb \<and> Bb \<le> Nn) \<longrightarrow>
      get_page_info
        (soup\<lparr>content_wrapper :=
           Some (Some (''showing occurrence '' @ a @ ''-'' @ b @ '' of '' @ n @ '' occurrences''))\<rparr>)
        year page
      = Inl (InvalidRange Aa Bb Nn)"
  proof
    assume h: "list_all is_digit a \<and> a \<noteq> [] \<and> list_all is_digit b \<and> b \<noteq> [] \<and> list_all is_digit n \<and> n \<noteq> []
        \<and> py_int a = Inr Aa \<and> py_int b = Inr Bb \<and> py_int n = Inr Nn
        \<and> \<not> (1 \<le> Aa \<and> Aa \<le> Bb \<and> Bb \<le> Nn)"
    then have d: "list_all is_digit a" "a \<noteq> []" "list_all is_digit b" "b \<noteq> []"
        "list_all is_digit n" "n \<noteq> []" "py_int a = Inr Aa" "py_int b = Inr Bb" "py_int n = Inr Nn"
      by simp_all
    show "get_page_info
        (soup\<lparr>content_wrapper :=
           Some (Some (''showing occurrence '' @ a @ ''-'' @ b @ '' of '' @ n @ '' occurrences''))\<rparr>)
        year page
      = Inl (InvalidRange Aa Bb Nn)"
      using h by (simp only: page_info_range_form [OF d]) simp
  qed
  have returned: "get_page_info soup year page = Inr (N', A', B') \<longrightarrow> 1 \<le> A' \<and> A' \<le> B' \<and> B' \<le> N'"
    using page_info_returns_valid [of soup year page N' A' B'] by blast
  from parsed shaped returned show ?thesis by (intro conjI)
qed

text \<open>
  The statement at a page whose range overshoots the total, at one whose range is
  reversed, and at a page that is accepted.
\<close>

theorem invalid_range_rejected_witness:
  "get_page_info
     \<lparr>content_wrapper = Some (Some ''showing occurrence 101-200 of 150 occurrences''),
      table_hp = None, tables = []\<rparr> 2024 2
   = Inl (InvalidRange 101 200 150)
   \<and> get_page_info
     \<lparr>content_wrapper = Some (Some ''showing occurrence 5-3 of 250 occurrences''),
      table_hp = None, tables = []\<rparr> 2024 1
   = Inl (InvalidRange 5 3 250)
   \<and> get_page_info
     \<lparr>content_wrapper = Some (Some ''showing occurrence 1-100 of 250 occurrences''),
      table_hp = None, tables = []\<rparr> 2024 1
   = Inr (250, 1, 100)
   \<and> (1::int) \<le> 1 \<and> (1::int) \<le> 100 \<and> (100::int) \<le> 250"
proof -
  let ?bad = "\<lparr>content_wrapper = Some (Some ''showing occurrence 101-200 of 150 occurrences''),
      table_hp = None, tables = []\<rparr>"
  let ?good = "\<lparr>content_wrapper = Some (Some ''showing occurrence 1-100 of 250 occurrences''),
      table_hp = None, tables = []\<rparr>"
  have digits: "list_all is_digit ''5''" "list_all is_digit ''3''" "list_all is_digit ''250''"
    "list_all is_digit ''1''" "list_all is_digit ''100''"
    by (simp_all add: is_digit_def)
  have vals: "py_int ''5'' = Inr 5" "py_int ''3'' = Inr 3" "py_int ''250'' = Inr 250"
    "py_int ''101'' = Inr 101" "py_int ''200'' = Inr 200" "py_int ''150'' = Inr 150"
    "py_int ''1'' = Inr 1" "py_int ''100'' = Inr 100"
    by (simp_all add: py_int_def int_max_str_digits_def digits_value_def digit_val_def)
  have total: "search total_re ''showing occurrence 101-200 of 150 occurrences'' = Some [''150'']"
    by (simp add: total_re_def greedy_def is_digit_def is_space_def)
  have range: "search range_re ''showing occurrence 101-200 of 150 occurrences''
               = Some [''101'', ''200'']"
    by (simp add: range_re_def greedy_def is_digit_def is_space_def)
  have good: "get_page_info ?good 2024 1 = Inr (250, 1, 100)"
    using page_info_range_form [of "''1''" "''100''" "''250''" 1 100 250 ?good 2024 1] digits vals
    by (simp del: search.simps)
  have first: "get_page_info ?bad 2024 2 = Inl (InvalidRange 101 200 150)"
    using invalid_range_rejected [where soup = ?bad
          and caption = "''showing occurrence 101-200 of 150 occurrences''"
          and total_match = "[''150'']" and N = 150 and A = 101 and B = 200 and year = 2024 and page = 2]
      total range vals
    by (simp del: search.simps add: group_def)
  have second: "get_page_info
     \<lparr>content_wrapper = Some (Some ''showing occurrence 5-3 of 250 occurrences''),
      table_hp = None, tables = []\<rparr> 2024 1
   = Inl (InvalidRange 5 3 250)"
    using invalid_range_rejected [where soup = ?bad and a = "''5''" and b = "''3''" and n = "''250''"
          and Aa = 5 and Bb = 3 and Nn = 250 and year = 2024 and page = 1]
      digits vals
    by (simp del: search.simps)
  have third: "(1::int) \<le> 1 \<and> (1::int) \<le> 100 \<and> (100::int) \<le> 250"
    using invalid_range_rejected [where soup = ?good and year = 2024 and page = 1
          and N' = 250 and A' = 1 and B' = 100]
      good
    by simp
  show ?thesis using first second good third by simp
qed

subsection \<open>The analyzer reads nothing but the page\<close>

text \<open>
  Claim C10. The result of \<open>_get_page_info\<close> is a function of the page alone: two calls
  on the same page with different \<open>year\<close> and \<open>page\<close> arguments return the same triple
  or raise the same error. In particular the page number asked for is not compared
  with the range the page reports: a caption for records 101 to 200 is accepted as the
  answer to a request for page 1.
\<close>

theorem page_info_independent_of_request:
  "get_page_info soup year page = get_page_info soup year' page'
   \<and> get_page_info
        (soup\<lparr>content_wrapper := Some (Some ''showing occurrence 101-200 of 250 occurrences'')\<rparr>)
        year 1
      = Inr (250, 101, 200)"
proof
  show "get_page_info soup year page = get_page_info soup year' page'"
    unfolding get_page_info_def by (rule refl)
next
  let ?text = "''showing occurrence 101-200 of 250 occurrences''"
  have total: "search total_re ?text = Some [''250'']"
    by (simp add: total_re_def greedy_def is_digit_def is_space_def)
  have range: "search range_re ?text = Some [''101'', ''200'']"
    by (simp add: range_re_def greedy_def is_digit_def is_space_def)
  have vals: "py_int ''250'' = Inr 250" "py_int ''101'' = Inr 101" "py_int ''200'' = Inr 200"
    by (simp_all add: py_int_def int_max_str_digits_def digits_value_def digit_val_def)
  show "get_page_info (soup\<lparr>content_wrapper := Some (Some ?text)\<rparr>) year 1 = Inr (250, 101, 200)"
    by (simp del: search.simps add: get_page_info_def total range group_def vals)
qed

section \<open>The detail extractor\<close>

lemma scan_row_keys: "map fst (scan_row details cells) = map fst details"
  by (simp add: scan_row_def Let_def AList.update_keys)

lemma scan_rows_keys: "map fst (foldl scan_row details rows) = map fst details"
  by (induction rows arbitrary: details) (simp_all add: scan_row_keys)

lemma scan_row_other:
  assumes "length cells \<ge> 2 \<longrightarrow> rstrip_colon (get_text_strip (cells ! 0)) \<noteq> k"
  shows "map_of (scan_row details cells) k = map_of details k"
  using assms by (auto simp: scan_row_def Let_def AList.update_conv')

lemma scan_row_sets:
  assumes "length cells \<ge> 2" and "rstrip_colon (get_text_strip (cells ! 0)) \<in> set (map fst details)"
  shows "map_of (scan_row details cells) (rstrip_colon (get_text_strip (cells ! 0)))
         = Some (get_text_strip (cells ! 1))"
  using assms by (simp add: scan_row_def Let_def AList.update_conv')

lemma scan_rows_other:
  assumes "\<forall>cells \<in> set rows. length cells \<ge> 2 \<longrightarrow> rstrip_colon (get_text_strip (cells ! 0)) \<noteq> k"
  shows "map_of (foldl scan_row details rows) k = map_of details k"
  using assms
proof (induction rows arbitrary: details)
  case Nil
  then show ?case by simp
next
  case (Cons cells rows)
  then have "map_of (foldl scan_row (scan_row details cells) rows) k
             = map_of (scan_row details cells) k"
    by simp
  also have "\<dots> = map_of details k"
    using Cons.prems by (intro scan_row_other) simp
  finally show ?case by simp
qed

lemma scan_rows_last:
  assumes "length cells \<ge> 2"
    and "rstrip_colon (get_text_strip (cells ! 0)) = k"
    and "k \<in> set (map fst details)"
    and "\<forall>later \<in> set after. length later \<ge> 2 \<longrightarrow> rstrip_colon (get_text_strip (later ! 0)) \<noteq> k"
  shows "map_of (foldl scan_row details (before @ cells # after)) k
         = Some (get_text_strip (cells ! 1))"
proof -
  let ?d = "foldl scan_row details before"
  have "k \<in> set (map fst ?d)"
    using assms(3) by (simp only: scan_rows_keys)
  then have "map_of (scan_row ?d cells) k = Some (get_text_strip (cells ! 1))"
    using assms(1,2) scan_row_sets [of cells ?d] by simp
  moreover have "map_of (foldl scan_row (scan_row ?d cells) after) k
                 = map_of (scan_row ?d cells) k"
    using assms(4) by (rule scan_rows_other)
  ultimately show ?thesis by simp
qed

lemma new_details_keys:
  "map fst (new_details url) =
     [''Date'', ''Time'', ''Type'', ''Owner/operator'', ''Registration'', ''MSN'',
      ''Year of manufacture'', ''Engine model'', ''Fatalities'', ''Other fatalities'',
      ''Aircraft damage'', ''Category'', ''Location'', ''Phase'', ''Nature'',
      ''Departure airport'', ''Destination airport'', ''Investigating agency'',
      ''Confidence Rating'', ''URL'']"
  by (simp add: new_details_def)

lemma new_details_lookup:
  "k \<in> set (map fst (new_details url)) \<Longrightarrow>
   map_of (new_details url) k = Some (if k = ''URL'' then url else '''')"
  unfolding new_details_def by auto

lemma make_request_page:
  "w (clock s) url = Page soup \<Longrightarrow> make_request w url s = (Inr soup, s\<lparr>clock := Suc (clock s)\<rparr>)"
  by (simp add: make_request_def max_retries_def upt_rec)

text \<open>
  Claim C8, as amended. The extractor scans the rows of the first table of the page.
  The key of a row is the text of its first cell (each string below the cell trimmed
  and the strings joined) without trailing colons, its value the text of the second cell.
  \<^item> A row with two or more cells whose key is one of the twenty field names sets that
    field to its value and leaves the other fields as they were; in the record returned
    the field holds the value of the last such row.
  \<^item> A row whose key is not a field name changes nothing.
  \<^item> A field that is the key of no row with two or more cells keeps its initial value:
    the empty string, and for \<open>URL\<close> the URL the extractor was called with.
  \<^item> The record always has the twenty fields, in their fixed order, and once the page has
    been fetched the extractor returns it: no row, present or missing, makes it fail.
\<close>

theorem detail_rows_fill_known_fields:
  "(tables soup = (before @ cells # after) # others \<and> 2 \<le> length cells
      \<and> rstrip_colon (get_text_strip (cells ! 0)) = k \<and> k \<in> set (map fst (new_details url))
      \<and> (\<forall>later \<in> set after.
            2 \<le> length later \<longrightarrow> rstrip_colon (get_text_strip (later ! 0)) \<noteq> k) \<longrightarrow>
    map_of (details_of_page url soup) k = Some (get_text_strip (cells ! 1)))
   \<and> (2 \<le> length row \<and> rstrip_colon (get_text_strip (row ! 0)) \<in> set (map fst details) \<longrightarrow>
      map_of (scan_row details row) k' =
        (if k' = rstrip_colon (get_text_strip (row ! 0)) then Some (get_text_strip (row ! 1))
         else map_of details k'))
   \<and> (rstrip_colon (get_text_strip (row ! 0)) \<notin> set (map fst details) \<longrightarrow>
      scan_row details row = details)
   \<and> (k \<in> set (map fst (new_details url))
      \<and> (\<forall>r \<in> set (case tables soup of [] \<Rightarrow> [] | main_table # _ \<Rightarrow> main_table).
            2 \<le> length r \<longrightarrow> rstrip_colon (get_text_strip (r ! 0)) \<noteq> k) \<longrightarrow>
      map_of (details_of_page url soup) k = Some (if k = ''URL'' then url else ''''))
   \<and> map fst (details_of_page url soup) =
       [''Date'', ''Time'', ''Type'', ''Owner/operator'', ''Registration'', ''MSN'',
        ''Year of manufacture'', ''Engine model'', ''Fatalities'', ''Other fatalities'',
        ''Aircraft damage'', ''Category'', ''Location'', ''Phase'', ''Nature'',
        ''Departure airport'', ''Destination airport'', ''Investigating agency'',
        ''Confidence Rating'', ''URL'']
   \<and> (make_request w url s = (Inr soup, s') \<longrightarrow>
      extract_accident_details w url s = (Inr (details_of_page url soup), s'))"
proof -
  have last_row: "tables soup = (before @ cells # after) # others \<and> 2 \<le> length cells
      \<and> rstrip_colon (get_text_strip (cells ! 0)) = k \<and> k \<in> set (map fst (new_details url))
      \<and> (\<forall>later \<in> set after.
            2 \<le> length later \<longrightarrow> rstrip_colon (get_text_strip (later ! 0)) \<noteq> k) \<longrightarrow>
    map_of (details_of_page url soup) k = Some (get_text_strip (cells ! 1))"
    using scan_rows_last [of cells k "new_details url" after before]
    by (simp add: details_of_page_def)
  have step: "2 \<le> length row \<and> rstrip_colon (get_text_strip (row ! 0)) \<in> set (map fst details) \<longrightarrow>
      map_of (scan_row details row) k' =
        (if k' = rstrip_colon (get_text_strip (row ! 0)) then Some (get_text_strip (row ! 1))
         else map_of details k')"
    using scan_row_sets [of row details] scan_row_other [of row k' details] by auto
  have unknown: "rstrip_colon (get_text_strip (row ! 0)) \<notin> set (map fst details) \<longrightarrow>
      scan_row details row = details"
    by (simp add: scan_row_def Let_def)
  have absent: "k \<in> set (map fst (new_details url))
      \<and> (\<forall>r \<in> set (case tables soup of [] \<Rightarrow> [] | main_table # _ \<Rightarrow> main_table).
            2 \<le> length r \<longrightarrow> rstrip_colon (get_text_strip (r ! 0)) \<noteq> k) \<longrightarrow>
      map_of (details_of_page url soup) k = Some (if k = ''URL'' then url else '''')"
  proof (cases "tables soup")
    case Nil
    then show ?thesis using new_details_lookup [of k url] by (simp add: details_of_page_def)
  next
    case (Cons main_table others)
    then show ?thesis
      using new_details_lookup [of k url] scan_rows_other [of main_table k "new_details url"]
      by (simp add: details_of_page_def)
  qed
  have fields: "map fst (details_of_page url soup) =
       [''Date'', ''Time'', ''Type'', ''Owner/operator'', ''Registration'', ''MSN'',
        ''Year of manufacture'', ''Engine model'', ''Fatalities'', ''Other fatalities'',
        ''Aircraft damage'', ''Category'', ''Location'', ''Phase'', ''Nature'',
        ''Departure airport'', ''Destination airport'', ''Investigating agency'',
        ''Confidence Rating'', ''URL'']"
    by (cases "tables soup") (simp_all only: details_of_page_def scan_rows_keys new_details_keys list.case)
  have fetched: "make_request w url s = (Inr soup, s') \<longrightarrow>
      extract_accident_details w url s = (Inr (details_of_page url soup), s')"
    by (simp add: extract_accident_details_def)
  from last_row step unknown absent fields fetched show ?thesis by (intro conjI)
qed

lemma text_of_plain_cells:
  "get_text_strip [''Date:''] = ''Date:''" "get_text_strip [''2024-01-05''] = ''2024-01-05''"
  "get_text_strip [''Weather:''] = ''Weather:''" "get_text_strip [''fog''] = ''fog''"
  "get_text_strip [''URL:''] = ''URL:''"
  "get_text_strip [''https://example.org/elsewhere''] = ''https://example.org/elsewhere''"
  by (simp_all add: get_text_strip_def strip_def is_space_def)

text \<open>
  The statement at a page with a \<open>Date\<close> row and a row the record has no field for.
\<close>

theorem detail_rows_fill_known_fields_witness:
  "map_of
     (details_of_page ''https://asn.flightsafety.org/wikibase/1''
        \<lparr>content_wrapper = None, table_hp = None,
         tables = [[[[''Date:''], [''2024-01-05'']], [[''Weather:''], [''fog'']]]]\<rparr>)
     ''Date''
   = Some ''2024-01-05''
   \<and> map_of
       (scan_row (new_details ''https://asn.flightsafety.org/wikibase/1'')
          [[''Date:''], [''2024-01-05'']])
       ''Time''
     = Some ''''
   \<and> scan_row (new_details ''https://asn.flightsafety.org/wikibase/1'')
       [[''Weather:''], [''fog'']]
     = new_details ''https://asn.flightsafety.org/wikibase/1''
   \<and> map_of
       (details_of_page ''https://asn.flightsafety.org/wikibase/1''
          \<lparr>content_wrapper = None, table_hp = None,
           tables = [[[[''Date:''], [''2024-01-05'']], [[''Weather:''], [''fog'']]]]\<rparr>)
       ''Time''
     = Some ''''
   \<and> extract_accident_details
       (\<lambda>n url. Page \<lparr>content_wrapper = None, table_hp = None,
           tables = [[[[''Date:''], [''2024-01-05'']], [[''Weather:''], [''fog'']]]]\<rparr>)
       ''https://asn.flightsafety.org/wikibase/1'' \<lparr>clock = 0, log = [], csv = None\<rparr>
     = (Inr (details_of_page ''https://asn.flightsafety.org/wikibase/1''
          \<lparr>content_wrapper = None, table_hp = None,
           tables = [[[[''Date:''], [''2024-01-05'']], [[''Weather:''], [''fog'']]]]\<rparr>),
        \<lparr>clock = 1, log = [], csv = None\<rparr>)"
proof -
  let ?url = "''https://asn.flightsafety.org/wikibase/1''"
  let ?date = "[[''Date:''], [''2024-01-05'']]"
  let ?weather = "[[''Weather:''], [''fog'']]"
  let ?page = "\<lparr>content_wrapper = None, table_hp = None, tables = [[?date, ?weather]]\<rparr>"
  let ?w = "\<lambda>(n::nat) (url::string). Page ?page"
  let ?s = "\<lparr>clock = 0, log = [], csv = None\<rparr>"
  note fact = detail_rows_fill_known_fields [where soup = ?page and before = "[]" and cells = ?date
        and after = "[?weather]" and others = "[]" and k = "''Date''" and url = ?url
        and row = ?date and details = "new_details ?url" and k' = "''Time''"
        and w = ?w and s = ?s and s' = "\<lparr>clock = 1, log = [], csv = None\<rparr>"]
  note fact' = detail_rows_fill_known_fields [where soup = ?page and k = "''Time''" and url = ?url
        and row = ?weather and details = "new_details ?url"]
  have date_key: "rstrip_colon (get_text_strip (?date ! 0)) = ''Date''"
    by (simp add: text_of_plain_cells rstrip_colon_def)
  have weather_key: "rstrip_colon (get_text_strip (?weather ! 0)) = ''Weather''"
    by (simp add: text_of_plain_cells rstrip_colon_def)
  have date_val: "get_text_strip (?date ! 1) = ''2024-01-05''"
    by (simp add: text_of_plain_cells)
  have known: "''Date'' \<in> set (map fst (new_details ?url))"
      "''Time'' \<in> set (map fst (new_details ?url))"
      "''Weather'' \<notin> set (map fst (new_details ?url))"
    by (simp_all only: new_details_keys) simp_all
  have time0: "map_of (new_details ?url) ''Time'' = Some ''''"
    using new_details_lookup [OF known(2)] by simp
  have req: "make_request ?w ?url ?s = (Inr ?page, \<lparr>clock = 1, log = [], csv = None\<rparr>)"
    by (simp add: make_request_page)
  have h1: "tables ?page = ([] @ ?date # [?weather]) # [] \<and> 2 \<le> length ?date
      \<and> rstrip_colon (get_text_strip (?date ! 0)) = ''Date''
      \<and> ''Date'' \<in> set (map fst (new_details ?url))
      \<and> (\<forall>later \<in> set [?weather].
            2 \<le> length later \<longrightarrow> rstrip_colon (get_text_strip (later ! 0)) \<noteq> ''Date'')"
    using known(1) by (simp add: date_key [simplified] weather_key [simplified])
  have row1: "map_of (details_of_page ?url ?page) ''Date'' = Some ''2024-01-05''"
    using mp [OF fact [THEN conjunct1] h1] by (simp only: date_val)
  have h2: "2 \<le> length ?date
      \<and> rstrip_colon (get_text_strip (?date ! 0)) \<in> set (map fst (new_details ?url))"
    using known(1) by (simp only: date_key) simp
  have step: "map_of (scan_row (new_details ?url) ?date) ''Time'' = Some ''''"
    using mp [OF fact [THEN conjunct2, THEN conjunct1] h2]
    by (simp only: date_key time0) simp
  have h3: "rstrip_colon (get_text_strip (?weather ! 0)) \<notin> set (map fst (new_details ?url))"
    using known(3) by (simp add: weather_key [simplified])
  have unknown: "scan_row (new_details ?url) ?weather = new_details ?url"
    using h3 fact' [THEN conjunct2, THEN conjunct2, THEN conjunct1] by (rule rev_mp)
  have h4: "''Time'' \<in> set (map fst (new_details ?url))
      \<and> (\<forall>r \<in> set (case tables ?page of [] \<Rightarrow> [] | main_table # _ \<Rightarrow> main_table).
            2 \<le> length r \<longrightarrow> rstrip_colon (get_text_strip (r ! 0)) \<noteq> ''Time'')"
    using known(2) by (simp add: date_key [simplified] weather_key [simplified])
  have absent: "map_of (details_of_page ?url ?page) ''Time'' = Some ''''"
    using mp [OF fact' [THEN conjunct2, THEN conjunct2, THEN conjunct2, THEN conjunct1] h4]
    by simp
  have fetched: "extract_accident_details ?w ?url ?s
                 = (Inr (details_of_page ?url ?page), \<lparr>clock = 1, log = [], csv = None\<rparr>)"
    using req fact [THEN conjunct2, THEN conjunct2, THEN conjunct2, THEN conjunct2, THEN conjunct2]
    by (rule rev_mp)
  from row1 step unknown absent fetched show ?thesis by (intro conjI)
qed

text \<open>
  Claim C8 as it was stated fails twice. On a page without any table the field \<open>URL\<close>,
  which no row mentions, is the URL asked for and not the empty string; and a \<open>Date\<close>
  row in the second table of a page sets nothing.
\<close>

theorem url_field_not_blank_and_later_table_ignored:
  "map_of
     (details_of_page ''https://asn.flightsafety.org/wikibase/1''
        \<lparr>content_wrapper = None, table_hp = None, tables = []\<rparr>)
     ''URL''
   = Some ''https://asn.flightsafety.org/wikibase/1''
   \<and> map_of
       (details_of_page ''https://asn.flightsafety.org/wikibase/1''
          \<lparr>content_wrapper = None, table_hp = None,
           tables = [[], [[[''Date:''], [''2024-01-05'']]]]\<rparr>)
       ''Date''
     = Some ''''"
  by (simp add: details_of_page_def new_details_def)

subsection \<open>The source URL\<close>

text \<open>
  Claim C9 does not hold of the code. The record is initialised with \<open>'URL': url\<close>, but
  \<open>URL\<close> is then one of the keys a row of the page may set: a detail page whose first
  table has the row \<open>URL: https://example.org/elsewhere\<close> yields a record whose \<open>URL\<close>
  field is that text and not the URL the page was fetched from.
\<close>

theorem page_row_overwrites_url:
  "extract_accident_details
     (\<lambda>n url. Page \<lparr>content_wrapper = None, table_hp = None,
         tables = [[[[''URL:''], [''https://example.org/elsewhere'']]]]\<rparr>)
     ''https://asn.flightsafety.org/wikibase/1'' \<lparr>clock = 0, log = [], csv = None\<rparr>
   = (Inr (details_of_page ''https://asn.flightsafety.org/wikibase/1''
        \<lparr>content_wrapper = None, table_hp = None,
         tables = [[[[''URL:''], [''https://example.org/elsewhere'']]]]\<rparr>),
      \<lparr>clock = 1, log = [], csv = None\<rparr>)
   \<and> map_of
       (details_of_page ''https://asn.flightsafety.org/wikibase/1''
          \<lparr>content_wrapper = None, table_hp = None,
           tables = [[[[''URL:''], [''https://example.org/elsewhere'']]]]\<rparr>)
       ''URL''
     = Some ''https://example.org/elsewhere''"
proof
  show "extract_accident_details
     (\<lambda>n url. Page \<lparr>content_wrapper = None, table_hp = None,
         tables = [[[[''URL:''], [''https://example.org/elsewhere'']]]]\<rparr>)
     ''https://asn.flightsafety.org/wikibase/1'' \<lparr>clock = 0, log = [], csv = None\<rparr>
   = (Inr (details_of_page ''https://asn.flightsafety.org/wikibase/1''
        \<lparr>content_wrapper = None, table_hp = None,
         tables = [[[[''URL:''], [''https://example.org/elsewhere'']]]]\<rparr>),
      \<lparr>clock = 1, log = [], csv = None\<rparr>)"
    by (simp add: extract_accident_details_def make_request_page)
next
  have "rstrip_colon ''URL:'' = ''URL''"
    by (simp add: rstrip_colon_def)
  then show "map_of
       (details_of_page ''https://asn.flightsafety.org/wikibase/1''
          \<lparr>content_wrapper = None, table_hp = None,
           tables = [[[[''URL:''], [''https://example.org/elsewhere'']]]]\<rparr>)
       ''URL''
     = Some ''https://example.org/elsewhere''"
    by (simp add: details_of_page_def scan_row_def text_of_plain_cells new_details_keys
        AList.update_conv')
qed

section \<open>The crawl loops\<close>

subsection \<open>What a request and a page of links leave unchanged\<close>

lemma request_attempts_frame:
  "request_attempts w url attempts s = (r, s') \<Longrightarrow>
   csv s' = csv s \<and> filter link_error (log s') = filter link_error (log s)"
proof (induction attempts arbitrary: s)
  case Nil
  then show ?case by auto
next
  case (Cons attempt rest)
  show ?case
  proof (cases "w (clock s) url")
    case Failed
    show ?thesis
    proof (cases "attempt = max_retries - 1")
      case True
      with Failed Cons.prems show ?thesis by (auto simp: Let_def)
    next
      case False
      let ?s1 = "s\<lparr>clock := Suc (clock s), log := log s @ [Attempt_failed (attempt + 1) url]\<rparr>"
      from False Failed Cons.prems have "request_attempts w url rest ?s1 = (r, s')"
        by (simp add: Let_def)
      from Cons.IH [OF this] show ?thesis by simp
    qed
  next
    case (Page soup)
    with Cons.prems show ?thesis by auto
  qed
qed

lemma make_request_frame:
  "make_request w url s = (r, s') \<Longrightarrow>
   csv s' = csv s \<and> filter link_error (log s') = filter link_error (log s)"
  unfolding make_request_def by (rule request_attempts_frame)

lemma extract_frame:
  "extract_accident_details w url s = (r, s') \<Longrightarrow>
   csv s' = csv s \<and> filter link_error (log s') = filter link_error (log s)"
  by (auto simp: extract_accident_details_def split: prod.splits sum.splits
      dest: make_request_frame)

lemma process_links_account:
  "process_links w links all_samples s = (all_samples', s') \<Longrightarrow>
   \<exists>new. all_samples' = all_samples @ new
     \<and> length new + length (filter link_error (log s'))
       = length links + length (filter link_error (log s))
     \<and> csv s' = (if new = [] then csv s else Some all_samples')"
proof (induction links arbitrary: all_samples s)
  case Nil
  then show ?case by simp
next
  case (Cons link links)
  obtain r s1 where ex: "extract_accident_details w link s = (r, s1)"
    by (cases "extract_accident_details w link s")
  note frame = extract_frame [OF ex]
  show ?case
  proof (cases r)
    case (Inl e)
    let ?s2 = "s1\<lparr>log := log s1 @ [Error_processing_link link e]\<rparr>"
    from Cons.prems ex Inl have "process_links w links all_samples ?s2 = (all_samples', s')"
      by simp
    from Cons.IH [OF this] obtain new where new: "all_samples' = all_samples @ new"
        "length new + length (filter link_error (log s'))
         = length links + length (filter link_error (log ?s2))"
        "csv s' = (if new = [] then csv ?s2 else Some all_samples')"
      by blast
    have "length (filter link_error (log ?s2)) = Suc (length (filter link_error (log s)))"
      using frame by simp
    with new(2) have "length new + length (filter link_error (log s'))
         = length (link # links) + length (filter link_error (log s))"
      by simp
    moreover have "csv s' = (if new = [] then csv s else Some all_samples')"
      using new(3) frame by simp
    ultimately show ?thesis using new(1) by blast
  next
    case (Inr details)
    let ?s2 = "s1\<lparr>csv := Some (all_samples @ [details])\<rparr>"
    from Cons.prems ex Inr
    have "process_links w links (all_samples @ [details]) ?s2 = (all_samples', s')"
      by (simp add: Let_def)
    from Cons.IH [OF this] obtain new where new: "all_samples' = (all_samples @ [details]) @ new"
        "length new + length (filter link_error (log s'))
         = length links + length (filter link_error (log ?s2))"
        "csv s' = (if new = [] then csv ?s2 else Some all_samples')"
      by blast
    have "all_samples' = all_samples @ (details # new)"
      using new(1) by simp
    moreover have "length (details # new) + length (filter link_error (log s'))
         = length (link # links) + length (filter link_error (log s))"
      using new(2) frame by simp
    moreover have "csv s' = (if details # new = [] then csv s else Some all_samples')"
      using new(1,3) by simp
    ultimately show ?thesis by blast
  qed
qed

lemma scrape_pages_output:
  "scrape_pages fuel w base_url year total_accidents page all_samples s = Some (out, s') \<Longrightarrow>
   csv s' = Some out \<and> (\<exists>new. out = all_samples @ new)"
proof (induction fuel arbitrary: page all_samples s)
  case 0
  then show ?case by simp
next
  case (Suc fuel)
  obtain r s1 where fl: "fetch_listing w base_url year page total_accidents s = (r, s1)"
    by (cases "fetch_listing w base_url year page total_accidents s")
  show ?case
  proof (cases r)
    case (Inl e)
    with Suc.prems fl show ?thesis by (auto simp: final_write_def)
  next
    case (Inr found)
    obtain end_range page_links where found: "found = (end_range, page_links)"
      by (cases found)
    obtain samples1 s2 where pl: "process_links w page_links all_samples s1 = (samples1, s2)"
      by (cases "process_links w page_links all_samples s1")
    from process_links_account [OF pl] obtain new1 where new1: "samples1 = all_samples @ new1"
      by blast
    show ?thesis
    proof (cases "end_range \<ge> total_accidents")
      case True
      with Suc.prems fl Inr found pl new1 show ?thesis by (auto simp: final_write_def)
    next
      case False
      with Suc.prems fl Inr found pl
      have "scrape_pages fuel w base_url year total_accidents (page + 1) samples1 s2 = Some (out, s')"
        by simp
      from Suc.IH [OF this] new1 show ?thesis by auto
    qed
  qed
qed

subsection \<open>The total stays the same\<close>

lemma make_request_csv: "make_request w url s = (r, s') \<Longrightarrow> csv s' = csv s"
  by (simp add: make_request_frame)

lemma analyze_page_csv:
  "analyze_page w base_url year page total_accidents s = (r, s') \<Longrightarrow> csv s' = csv s"
  by (auto simp: analyze_page_def split: prod.splits sum.splits option.splits if_splits
      dest: make_request_csv)

lemma discover_csv:
  "discover fuel w base_url year page total_accidents page_counts s = Some (r, s') \<Longrightarrow>
   csv s' = csv s"
proof (induction fuel arbitrary: page total_accidents page_counts s)
  case 0
  then show ?case by simp
next
  case (Suc fuel)
  obtain a s1 where an: "analyze_page w base_url year page total_accidents s = (a, s1)"
    by (cases "analyze_page w base_url year page total_accidents s")
  note csv1 = analyze_page_csv [OF an]
  show ?case
  proof (cases a)
    case (Inl e)
    with Suc.prems an csv1 show ?thesis by auto
  next
    case (Inr found)
    obtain t end_range n where found: "found = (t, end_range, n)"
      by (cases found)
    show ?thesis
    proof (cases "end_range \<ge> t")
      case True
      with Suc.prems an Inr found csv1 show ?thesis by auto
    next
      case False
      with Suc.prems an Inr found
      have "discover fuel w base_url year (page + 1) (Some t) (page_counts @ [n]) s1 = Some (r, s')"
        by simp
      from Suc.IH [OF this] csv1 show ?thesis by simp
    qed
  qed
qed

lemma analyze_page_total:
  "analyze_page w base_url year page (Some t) s = (Inr (t', end_range, n), s') \<Longrightarrow> t' = t"
  by (auto simp: analyze_page_def split: prod.splits sum.splits if_splits)

lemma discover_total:
  "discover fuel w base_url year page (Some t) page_counts s = Some (Found t' pages counts, s') \<Longrightarrow>
   t' = t"
proof (induction fuel arbitrary: page page_counts s)
  case 0
  then show ?case by simp
next
  case (Suc fuel)
  obtain a s1 where an: "analyze_page w base_url year page (Some t) s = (a, s1)"
    by (cases "analyze_page w base_url year page (Some t) s")
  show ?case
  proof (cases a)
    case (Inl e)
    with Suc.prems an show ?thesis by simp
  next
    case (Inr found)
    obtain t1 end_range n where found: "found = (t1, end_range, n)"
      by (cases found)
    have t1: "t1 = t"
      using an Inr found analyze_page_total by blast
    show ?thesis
    proof (cases "end_range \<ge> t1")
      case True
      with Suc.prems an Inr found t1 show ?thesis by simp
    next
      case False
      with Suc.prems an Inr found t1
      have "discover fuel w base_url year (page + 1) (Some t) (page_counts @ [n]) s1
            = Some (Found t' pages counts, s')"
        by simp
      then show ?thesis by (rule Suc.IH)
    qed
  qed
qed

lemma analyze_page_mismatch:
  assumes "make_request w (listing_url base_url year page) s = (Inr soup, s1)"
    and "get_page_info soup year page = Inr (page_total, start_range, end_range)"
    and "page_total \<noteq> t"
  shows "analyze_page w base_url year page (Some t) s = (Inl (TotalMismatch t page_total), s1)"
  using assms by (auto simp: analyze_page_def)

lemma fetch_listing_changed:
  assumes "make_request w (listing_url base_url year page) s = (Inr soup, s1)"
    and "get_page_info soup year page = Inr (page_total, start_range, end_range)"
    and "page_total \<noteq> t"
  shows "fetch_listing w base_url year page t s = (Inl (TotalChanged t page_total), s1)"
  using assms by (simp add: fetch_listing_def)

lemma discover_failed:
  "analyze_page w base_url year page total_accidents s = (Inl e, s1) \<Longrightarrow>
   discover (Suc fuel) w base_url year page total_accidents page_counts s
   = Some (Analysis_failed, s1\<lparr>log := log s1 @ [Error_analyzing page e]\<rparr>)"
  by simp

lemma scrape_pages_failed:
  "fetch_listing w base_url year page total_accidents s = (Inl e, s1) \<Longrightarrow>
   scrape_pages (Suc fuel) w base_url year total_accidents page all_samples s
   = Some (all_samples, s1\<lparr>log := log s1 @ [Error_processing_page page e], csv := Some all_samples\<rparr>)"
  by (simp add: final_write_def)

text \<open>
  Claim C1. Once a total \<open>t\<close> has been captured, a listing page that is fetched and
  analyzed and reports another total ends the crawl at that page: in the discovery
  phase with "Total accidents mismatch", in the extraction phase with "Total accidents
  changed during scraping", whatever the page number and the records collected so far.
  A discovery that succeeds reports the total it started from. On a site whose three
  pages report the totals 50, 50, 50 discovery finds three pages; on one whose pages
  report 50, 50, 48 it is abandoned at the third page, for any fuel of three or more.
\<close>

theorem total_constant_across_pages:
  "(make_request w (listing_url base_url year page) s = (Inr soup, s_req)
      \<and> get_page_info soup year page = Inr (page_total, start_range, end_range)
      \<and> page_total \<noteq> t \<longrightarrow>
    discover (Suc fuel) w base_url year page (Some t) page_counts s
      = Some (Analysis_failed,
              s_req\<lparr>log := log s_req @ [Error_analyzing page (TotalMismatch t page_total)]\<rparr>)
    \<and> scrape_pages (Suc fuel) w base_url year t page all_samples s
      = Some (all_samples,
              s_req\<lparr>log := log s_req @ [Error_processing_page page (TotalChanged t page_total)],
                 csv := Some all_samples\<rparr>))
   \<and> (discover fuel w base_url year page (Some t) page_counts s
        = Some (Found t' pages page_counts', s') \<longrightarrow> t' = t)
   \<and> discover (Suc (Suc (Suc fuel))) steady_site asn 2024 1 None [] start
      = Some (Found 50 3 [0, 0, 0], \<lparr>clock = 3, log = [], csv = None\<rparr>)
   \<and> discover (Suc (Suc (Suc fuel))) shrunk_site asn 2024 1 None [] start
      = Some (Analysis_failed,
              \<lparr>clock = 3, log = [Error_analyzing 3 (TotalMismatch 50 48)], csv = None\<rparr>)"
proof -
  have mismatch: "make_request w (listing_url base_url year page) s = (Inr soup, s_req)
      \<and> get_page_info soup year page = Inr (page_total, start_range, end_range)
      \<and> page_total \<noteq> t \<longrightarrow>
    discover (Suc fuel) w base_url year page (Some t) page_counts s
      = Some (Analysis_failed,
              s_req\<lparr>log := log s_req @ [Error_analyzing page (TotalMismatch t page_total)]\<rparr>)
    \<and> scrape_pages (Suc fuel) w base_url year t page all_samples s
      = Some (all_samples,
              s_req\<lparr>log := log s_req @ [Error_processing_page page (TotalChanged t page_total)],
                 csv := Some all_samples\<rparr>)"
  proof (intro impI, elim conjE)
    assume req: "make_request w (listing_url base_url year page) s = (Inr soup, s_req)"
      and info: "get_page_info soup year page = Inr (page_total, start_range, end_range)"
      and differs: "page_total \<noteq> t"
    show "discover (Suc fuel) w base_url year page (Some t) page_counts s
      = Some (Analysis_failed,
              s_req\<lparr>log := log s_req @ [Error_analyzing page (TotalMismatch t page_total)]\<rparr>)
    \<and> scrape_pages (Suc fuel) w base_url year t page all_samples s
      = Some (all_samples,
              s_req\<lparr>log := log s_req @ [Error_processing_page page (TotalChanged t page_total)],
                 csv := Some all_samples\<rparr>)"
      using discover_failed [OF analyze_page_mismatch [OF req info differs]]
        scrape_pages_failed [OF fetch_listing_changed [OF req info differs]]
      by (intro conjI)
  qed
  have kept: "discover fuel w base_url year page (Some t) page_counts s
        = Some (Found t' pages page_counts', s') \<longrightarrow> t' = t"
    using discover_total by blast
  have p1: "analyze_page steady_site asn 2024 1 None start = (Inr (50, 20, 0), start\<lparr>clock := Suc 0\<rparr>)"
    by code_simp
  have p2: "analyze_page steady_site asn 2024 2 (Some 50) (start\<lparr>clock := Suc 0\<rparr>)
            = (Inr (50, 40, 0), start\<lparr>clock := 2\<rparr>)"
    by code_simp
  have p3: "analyze_page steady_site asn 2024 3 (Some 50) (start\<lparr>clock := 2\<rparr>)
            = (Inr (50, 50, 0), start\<lparr>clock := 3\<rparr>)"
    by code_simp
  have steady: "discover (Suc (Suc (Suc fuel))) steady_site asn 2024 1 None [] start
      = Some (Found 50 3 [0, 0, 0], \<lparr>clock = 3, log = [], csv = None\<rparr>)"
    by (simp add: p1 p2 p3) (simp add: start_def)
  have q1: "analyze_page shrunk_site asn 2024 1 None start = (Inr (50, 20, 0), start\<lparr>clock := Suc 0\<rparr>)"
    by code_simp
  have q2: "analyze_page shrunk_site asn 2024 2 (Some 50) (start\<lparr>clock := Suc 0\<rparr>)
            = (Inr (50, 40, 0), start\<lparr>clock := 2\<rparr>)"
    by code_simp
  have q3: "analyze_page shrunk_site asn 2024 3 (Some 50) (start\<lparr>clock := 2\<rparr>)
            = (Inl (TotalMismatch 50 48), start\<lparr>clock := 3\<rparr>)"
    by code_simp
  have shrunk: "discover (Suc (Suc (Suc fuel))) shrunk_site asn 2024 1 None [] start
      = Some (Analysis_failed,
              \<lparr>clock = 3, log = [Error_analyzing 3 (TotalMismatch 50 48)], csv = None\<rparr>)"
    by (simp add: q1 q2 q3) (simp add: start_def)
  from mismatch kept steady shrunk show ?thesis by (intro conjI)
qed

text \<open>The statement at the third page of the site whose catalog shrank.\<close>

theorem total_constant_across_pages_witness:
  "discover (Suc 0) shrunk_site asn 2024 3 (Some 50) [0, 0] \<lparr>clock = 2, log = [], csv = None\<rparr>
   = Some (Analysis_failed,
           \<lparr>clock = 3, log = [Error_analyzing 3 (TotalMismatch 50 48)], csv = None\<rparr>)
   \<and> scrape_pages (Suc 0) shrunk_site asn 2024 50 3 [] \<lparr>clock = 2, log = [], csv = None\<rparr>
     = Some ([], \<lparr>clock = 3, log = [Error_processing_page 3 (TotalChanged 50 48)], csv = Some []\<rparr>)
   \<and> discover (Suc (Suc 0)) steady_site asn 2024 2 (Some 50) [0] \<lparr>clock = 1, log = [], csv = None\<rparr>
     = Some (Found 50 3 [0, 0, 0], \<lparr>clock = 3, log = [], csv = None\<rparr>)
   \<and> (50::int) = 50"
proof -
  let ?s2 = "\<lparr>clock = 2, log = [], csv = None\<rparr>"
  let ?s3 = "\<lparr>clock = 3, log = [], csv = None\<rparr>"
  let ?page3 = "listing_page ''showing occurrence 41-48 of 48 occurrences'' []"
  note fact = total_constant_across_pages [where w = shrunk_site and base_url = asn and year = 2024
      and page = 3 and s = ?s2 and soup = ?page3 and s_req = ?s3 and page_total = 48
      and start_range = 41 and end_range = 48 and t = 50 and fuel = 0 and page_counts = "[0, 0]"
      and all_samples = "[]"]
  note fact' = total_constant_across_pages [where w = steady_site and base_url = asn and year = 2024
      and page = 2 and s = "\<lparr>clock = 1, log = [], csv = None\<rparr>" and t = 50 and fuel = "Suc (Suc 0)"
      and page_counts = "[0]" and t' = 50 and pages = 3 and page_counts' = "[0, 0, 0]" and s' = ?s3]
  have req: "make_request shrunk_site (listing_url asn 2024 3) ?s2 = (Inr ?page3, ?s3)"
    by code_simp
  have info: "get_page_info ?page3 2024 3 = Inr (48, 41, 48)"
    by code_simp
  have hyp: "make_request shrunk_site (listing_url asn 2024 3) ?s2 = (Inr ?page3, ?s3)
      \<and> get_page_info ?page3 2024 3 = Inr (48, 41, 48) \<and> (48::int) \<noteq> 50"
    using req info by simp
  have aborted: "discover (Suc 0) shrunk_site asn 2024 3 (Some 50) [0, 0] ?s2
   = Some (Analysis_failed,
           \<lparr>clock = 3, log = [Error_analyzing 3 (TotalMismatch 50 48)], csv = None\<rparr>)
   \<and> scrape_pages (Suc 0) shrunk_site asn 2024 50 3 [] ?s2
     = Some ([], \<lparr>clock = 3, log = [Error_processing_page 3 (TotalChanged 50 48)], csv = Some []\<rparr>)"
    using mp [OF fact [THEN conjunct1] hyp] by simp
  have found: "discover (Suc (Suc 0)) steady_site asn 2024 2 (Some 50) [0] \<lparr>clock = 1, log = [], csv = None\<rparr>
     = Some (Found 50 3 [0, 0, 0], ?s3)"
    by code_simp
  have same: "(50::int) = 50"
    using mp [OF fact' [THEN conjunct2, THEN conjunct1] found] .
  from aborted found same show ?thesis by simp
qed

subsection \<open>Errors during discovery\<close>

lemma analyze_request_failed:
  "make_request w (listing_url base_url year page) s = (Inl e, s1) \<Longrightarrow>
   analyze_page w base_url year page total_accidents s = (Inl e, s1)"
  by (simp add: analyze_page_def)

lemma analyze_info_failed:
  "make_request w (listing_url base_url year page) s = (Inr soup, s1) \<Longrightarrow>
   get_page_info soup year page = Inl e \<Longrightarrow>
   analyze_page w base_url year page total_accidents s = (Inl e, s1)"
  by (simp add: analyze_page_def)

lemma analyze_links_failed:
  "make_request w (listing_url base_url year page) s = (Inr soup, s1) \<Longrightarrow>
   get_page_info soup year page = Inr (page_total, start_range, end_range) \<Longrightarrow>
   total_accidents = None \<or> total_accidents = Some page_total \<Longrightarrow>
   get_page_links base_url soup = Inl e \<Longrightarrow>
   analyze_page w base_url year page total_accidents s = (Inl e, s1)"
  by (auto simp: analyze_page_def)

lemma discover_continues:
  "analyze_page w base_url year page total_accidents s = (Inr (t, end_range, n), s1) \<Longrightarrow>
   end_range < t \<Longrightarrow>
   discover (Suc fuel) w base_url year page total_accidents page_counts s
   = discover fuel w base_url year (page + 1) (Some t) (page_counts @ [n]) s1"
  by simp

lemma scrape_year_failed:
  "discover fuel w base_url year 1 None [] s = Some (Analysis_failed, s') \<Longrightarrow>
   scrape_year fuel w base_url answer year s = Some ([], s')"
  by (simp add: scrape_year_def)

text \<open>
  Claim C7. In the discovery phase an error on a page, whatever the page and whatever
  was gathered before it, ends discovery with the result \<open>Analysis_failed\<close>, which carries
  no counts: so does a failed request, a page the analyzer rejects and a page without
  the listing table. A page analyzed without error that does not reach the total hands
  over to the next page, so the outcome of the loop is the outcome at the page that
  fails. Discovery never writes the output file, and \<open>scrape_year\<close> then returns the
  empty table.
\<close>

theorem discovery_error_aborts:
  "(analyze_page w base_url year page total_accidents s = (Inl e, s_req) \<longrightarrow>
      discover (Suc fuel) w base_url year page total_accidents page_counts s
      = Some (Analysis_failed, s_req\<lparr>log := log s_req @ [Error_analyzing page e]\<rparr>))
   \<and> (make_request w (listing_url base_url year page) s = (Inl e, s_req) \<longrightarrow>
      analyze_page w base_url year page total_accidents s = (Inl e, s_req))
   \<and> (make_request w (listing_url base_url year page) s = (Inr soup, s_req)
        \<and> get_page_info soup year page = Inl e \<longrightarrow>
      analyze_page w base_url year page total_accidents s = (Inl e, s_req))
   \<and> (make_request w (listing_url base_url year page) s = (Inr soup, s_req)
        \<and> get_page_info soup year page = Inr (page_total, start_range, end_range)
        \<and> (total_accidents = None \<or> total_accidents = Some page_total)
        \<and> get_page_links base_url soup = Inl e \<longrightarrow>
      analyze_page w base_url year page total_accidents s = (Inl e, s_req))
   \<and> (analyze_page w base_url year page total_accidents s = (Inr (t, end_range', n), s_req)
        \<and> end_range' < t \<longrightarrow>
      discover (Suc fuel) w base_url year page total_accidents page_counts s
      = discover fuel w base_url year (page + 1) (Some t) (page_counts @ [n]) s_req)
   \<and> (discover fuel w base_url year page total_accidents page_counts s = Some (r, s') \<longrightarrow>
      csv s' = csv s)
   \<and> (discover fuel w base_url year 1 None [] s = Some (Analysis_failed, s') \<longrightarrow>
      scrape_year fuel w base_url answer year s = Some ([], s'))"
  using discover_failed [of w base_url year page total_accidents s e s_req fuel page_counts]
    analyze_request_failed [of w base_url year page s e s_req total_accidents]
    analyze_info_failed [of w base_url year page s soup s_req e total_accidents]
    analyze_links_failed [of w base_url year page s soup s_req page_total start_range end_range
      total_accidents e]
    discover_continues [of w base_url year page total_accidents s t end_range' n s_req fuel page_counts]
    discover_csv [of fuel w base_url year page total_accidents page_counts s r s']
    scrape_year_failed [of fuel w base_url year s s' answer]
  by blast

text \<open>
  The statement at a site whose second listing page is an error page, at a site that
  is down and at a listing page without its table.
\<close>

theorem discovery_error_aborts_witness:
  "discover (Suc 0) broken_site asn 2024 2 (Some 3) [2] \<lparr>clock = 1, log = [], csv = None\<rparr>
   = Some (Analysis_failed,
           \<lparr>clock = 2, log = [Error_analyzing 2 ContentWrapperNotFound], csv = None\<rparr>)
   \<and> analyze_page (serve []) asn 2024 1 None start
     = (Inl RequestException,
        \<lparr>clock = 3,
         log = [Attempt_failed 1 (listing_url asn 2024 1), Attempt_failed 2 (listing_url asn 2024 1),
                Attempt_failed 3 (listing_url asn 2024 1)],
         csv = None\<rparr>)
   \<and> analyze_page broken_site asn 2024 2 (Some 3) \<lparr>clock = 1, log = [], csv = None\<rparr>
     = (Inl ContentWrapperNotFound, \<lparr>clock = 2, log = [], csv = None\<rparr>)
   \<and> analyze_page
       (serve [(listing_url asn 2024 1,
                \<lparr>content_wrapper = Some (Some ''3 occurrences''), table_hp = None, tables = []\<rparr>)])
       asn 2024 1 None start
     = (Inl TableNotFound, \<lparr>clock = 1, log = [], csv = None\<rparr>)
   \<and> discover (Suc (Suc 0)) broken_site asn 2024 1 None [] start
     = discover (Suc 0) broken_site asn 2024 (1 + 1) (Some 3) ([] @ [2])
         \<lparr>clock = 1, log = [], csv = None\<rparr>
   \<and> csv \<lparr>clock = 2, log = [Error_analyzing 2 ContentWrapperNotFound], csv = None\<rparr> = csv start
   \<and> scrape_year (Suc (Suc 0)) broken_site asn ''y'' 2024 start
     = Some ([], \<lparr>clock = 2, log = [Error_analyzing 2 ContentWrapperNotFound], csv = None\<rparr>)"
proof -
  let ?sa = "\<lparr>clock = 1, log = [], csv = None\<rparr>"
  let ?sb = "\<lparr>clock = 2, log = [], csv = None\<rparr>"
  let ?sf = "\<lparr>clock = 2, log = [Error_analyzing 2 ContentWrapperNotFound], csv = None\<rparr>"
  let ?down = "\<lparr>clock = 3,
         log = [Attempt_failed 1 (listing_url asn 2024 1), Attempt_failed 2 (listing_url asn 2024 1),
                Attempt_failed 3 (listing_url asn 2024 1)],
         csv = None\<rparr>"
  let ?bare = "\<lparr>content_wrapper = Some (Some ''3 occurrences''), table_hp = None, tables = []\<rparr>"
  let ?tableless = "serve [(listing_url asn 2024 1, ?bare)]"
  note broken = discovery_error_aborts [where w = broken_site and base_url = asn and year = 2024
      and page = 2 and total_accidents = "Some 3" and s = ?sa and e = ContentWrapperNotFound
      and s_req = ?sb and fuel = 0 and page_counts = "[2]" and soup = "detail_page []"]
  note down = discovery_error_aborts [where w = "serve []" and base_url = asn and year = 2024
      and page = 1 and total_accidents = None and s = start and e = RequestException
      and s_req = ?down]
  note tableless = discovery_error_aborts [where w = ?tableless and base_url = asn and year = 2024
      and page = 1 and total_accidents = None and s = start and e = TableNotFound
      and s_req = ?sa and soup = ?bare and page_total = 3 and start_range = 1 and end_range = 3]
  note whole = discovery_error_aborts [where w = broken_site and base_url = asn and year = 2024
      and page = 1 and total_accidents = None and s = start and s_req = ?sa and fuel = "Suc 0"
      and page_counts = "[]" and t = 3 and end_range' = 2 and n = 2
      and r = Analysis_failed and s' = ?sf and answer = "''y''"]
  note run = discovery_error_aborts [where w = broken_site and base_url = asn and year = 2024
      and page = 1 and total_accidents = None and s = start and fuel = "Suc (Suc 0)"
      and page_counts = "[]" and r = Analysis_failed and s' = ?sf and answer = "''y''"]
  have h3: "make_request broken_site (listing_url asn 2024 2) ?sa = (Inr (detail_page []), ?sb)
            \<and> get_page_info (detail_page []) 2024 2 = Inl ContentWrapperNotFound"
    by code_simp
  have w3: "analyze_page broken_site asn 2024 2 (Some 3) ?sa = (Inl ContentWrapperNotFound, ?sb)"
    using mp [OF broken [THEN conjunct2, THEN conjunct2, THEN conjunct1] h3] .
  have w1: "discover (Suc 0) broken_site asn 2024 2 (Some 3) [2] ?sa = Some (Analysis_failed, ?sf)"
    using mp [OF broken [THEN conjunct1] w3] by simp
  have h2: "make_request (serve []) (listing_url asn 2024 1) start = (Inl RequestException, ?down)"
    by code_simp
  have w2: "analyze_page (serve []) asn 2024 1 None start = (Inl RequestException, ?down)"
    using mp [OF down [THEN conjunct2, THEN conjunct1] h2] .
  have h4: "make_request ?tableless (listing_url asn 2024 1) start = (Inr ?bare, ?sa)
            \<and> get_page_info ?bare 2024 1 = Inr (3, 1, 3)
            \<and> ((None :: int option) = None \<or> None = Some (3::int))
            \<and> get_page_links asn ?bare = Inl TableNotFound"
    by code_simp
  have w4: "analyze_page ?tableless asn 2024 1 None start = (Inl TableNotFound, ?sa)"
    using mp [OF tableless [THEN conjunct2, THEN conjunct2, THEN conjunct2, THEN conjunct1] h4] .
  have h5: "analyze_page broken_site asn 2024 1 None start = (Inr (3, 2, 2), ?sa) \<and> (2::int) < 3"
    by code_simp
  have w5: "discover (Suc (Suc 0)) broken_site asn 2024 1 None [] start
     = discover (Suc 0) broken_site asn 2024 (1 + 1) (Some 3) ([] @ [2]) ?sa"
    using mp [OF whole [THEN conjunct2, THEN conjunct2, THEN conjunct2, THEN conjunct2,
          THEN conjunct1] h5] .
  have h6: "discover (Suc (Suc 0)) broken_site asn 2024 1 None [] start = Some (Analysis_failed, ?sf)"
    using w5 w1 by simp
  have w6: "csv ?sf = csv start"
    using mp [OF run [THEN conjunct2, THEN conjunct2, THEN conjunct2, THEN conjunct2,
          THEN conjunct2, THEN conjunct1] h6] .
  have w7: "scrape_year (Suc (Suc 0)) broken_site asn ''y'' 2024 start = Some ([], ?sf)"
    using mp [OF run [THEN conjunct2, THEN conjunct2, THEN conjunct2, THEN conjunct2,
          THEN conjunct2, THEN conjunct2] h6] .
  from w1 w2 w3 w4 w5 w6 w7 show ?thesis by (intro conjI)
qed

subsection \<open>Errors on a listing page during extraction\<close>

lemma fetch_request_failed:
  "make_request w (listing_url base_url year page) s = (Inl e, s1) \<Longrightarrow>
   fetch_listing w base_url year page total_accidents s = (Inl e, s1)"
  by (simp add: fetch_listing_def)

lemma fetch_info_failed:
  "make_request w (listing_url base_url year page) s = (Inr soup, s1) \<Longrightarrow>
   get_page_info soup year page = Inl e \<Longrightarrow>
   fetch_listing w base_url year page total_accidents s = (Inl e, s1)"
  by (simp add: fetch_listing_def)

lemma fetch_links_failed:
  "make_request w (listing_url base_url year page) s = (Inr soup, s1) \<Longrightarrow>
   get_page_info soup year page = Inr (total_accidents, start_range, end_range) \<Longrightarrow>
   get_page_links base_url soup = Inl e \<Longrightarrow>
   fetch_listing w base_url year page total_accidents s = (Inl e, s1)"
  by (simp add: fetch_listing_def)

lemma fetch_count_mismatch:
  "make_request w (listing_url base_url year page) s = (Inr soup, s1) \<Longrightarrow>
   get_page_info soup year page = Inr (total_accidents, start_range, end_range) \<Longrightarrow>
   get_page_links base_url soup = Inr page_links \<Longrightarrow>
   int (length page_links) \<noteq> min 100 (end_range - start_range + 1) \<Longrightarrow>
   fetch_listing w base_url year page total_accidents s
   = (Inl (LinkCountMismatch (min 100 (end_range - start_range + 1)) (length page_links)), s1)"
  by (simp add: fetch_listing_def Let_def)

lemma fetch_count_match:
  "make_request w (listing_url base_url year page) s = (Inr soup, s1) \<Longrightarrow>
   get_page_info soup year page = Inr (total_accidents, start_range, end_range) \<Longrightarrow>
   get_page_links base_url soup = Inr page_links \<Longrightarrow>
   int (length page_links) = min 100 (end_range - start_range + 1) \<Longrightarrow>
   fetch_listing w base_url year page total_accidents s = (Inr (end_range, page_links), s1)"
  by (simp add: fetch_listing_def Let_def)

lemma scrape_pages_keeps:
  assumes "scrape_pages fuel w base_url year total_accidents page all_samples s = Some (out, s')"
  shows "csv s' = Some out \<and> take (length all_samples) out = all_samples"
  using scrape_pages_output [OF assms] by auto

text \<open>
  Claim C6. In the extraction phase, when the head of a page (its request, its
  analysis, the check of its total, its links, the check of their number) raises, the
  loop stops there: the error is logged, no further request is made, the records
  gathered so far are written to the output file and returned. A failed request, a
  page the analyzer rejects and a page without the listing table are such failures.
  Whenever the loop returns, the file holds exactly the records returned, and they
  extend the records the loop started with.
\<close>

theorem listing_failure_ends_extraction:
  "(fetch_listing w base_url year page total_accidents s = (Inl e, s_req) \<longrightarrow>
      scrape_pages (Suc fuel) w base_url year total_accidents page all_samples s
      = Some (all_samples,
              s_req\<lparr>log := log s_req @ [Error_processing_page page e], csv := Some all_samples\<rparr>))
   \<and> (make_request w (listing_url base_url year page) s = (Inl e, s_req) \<longrightarrow>
      fetch_listing w base_url year page total_accidents s = (Inl e, s_req))
   \<and> (make_request w (listing_url base_url year page) s = (Inr soup, s_req)
        \<and> get_page_info soup year page = Inl e \<longrightarrow>
      fetch_listing w base_url year page total_accidents s = (Inl e, s_req))
   \<and> (make_request w (listing_url base_url year page) s = (Inr soup, s_req)
        \<and> get_page_info soup year page = Inr (total_accidents, start_range, end_range)
        \<and> get_page_links base_url soup = Inl e \<longrightarrow>
      fetch_listing w base_url year page total_accidents s = (Inl e, s_req))
   \<and> (scrape_pages fuel w base_url year total_accidents page all_samples s = Some (out, s') \<longrightarrow>
      csv s' = Some out \<and> take (length all_samples) out = all_samples)"
  using scrape_pages_failed [of w base_url year page total_accidents s e s_req fuel all_samples]
    fetch_request_failed [of w base_url year page s e s_req total_accidents]
    fetch_info_failed [of w base_url year page s soup s_req e total_accidents]
    fetch_links_failed [of w base_url year page s soup s_req total_accidents start_range end_range e]
    scrape_pages_keeps [of fuel w base_url year total_accidents page all_samples s out s']
  by blast

text \<open>
  The statement at a site whose second listing page is an error page, reached with
  the two records of the first page, at a site that is down and at a listing page
  without its table.
\<close>

theorem listing_failure_ends_extraction_witness:
  "scrape_pages (Suc 0) broken_site asn 2024 3 2
     [details_of_page (asn @ ''/wikibase/1'') (detail_page [(''Date:'', ''2024-01-05'')]),
      details_of_page (asn @ ''/wikibase/2'') (detail_page [(''Date:'', ''2024-02-07'')])]
     \<lparr>clock = 3, log = [],
      csv = Some
        [details_of_page (asn @ ''/wikibase/1'') (detail_page [(''Date:'', ''2024-01-05'')]),
         details_of_page (asn @ ''/wikibase/2'') (detail_page [(''Date:'', ''2024-02-07'')])]\<rparr>
   = Some
      ([details_of_page (asn @ ''/wikibase/1'') (detail_page [(''Date:'', ''2024-01-05'')]),
        details_of_page (asn @ ''/wikibase/2'') (detail_page [(''Date:'', ''2024-02-07'')])],
       \<lparr>clock = 4, log = [Error_processing_page 2 ContentWrapperNotFound],
        csv = Some
          [details_of_page (asn @ ''/wikibase/1'') (detail_page [(''Date:'', ''2024-01-05'')]),
           details_of_page (asn @ ''/wikibase/2'') (detail_page [(''Date:'', ''2024-02-07'')])]\<rparr>)
   \<and> fetch_listing (serve []) asn 2024 1 3 start
     = (Inl RequestException,
        \<lparr>clock = 3,
         log = [Attempt_failed 1 (listing_url asn 2024 1), Attempt_failed 2 (listing_url asn 2024 1),
                Attempt_failed 3 (listing_url asn 2024 1)],
         csv = None\<rparr>)
   \<and> fetch_listing
       (serve [(listing_url asn 2024 1,
                \<lparr>content_wrapper = Some (Some ''3 occurrences''), table_hp = None, tables = []\<rparr>)])
       asn 2024 1 3 start
     = (Inl TableNotFound, \<lparr>clock = 1, log = [], csv = None\<rparr>)
   \<and> scrape_pages (Suc (Suc 0)) broken_site asn 2024 3 1 [] start
     = Some
        ([details_of_page (asn @ ''/wikibase/1'') (detail_page [(''Date:'', ''2024-01-05'')]),
          details_of_page (asn @ ''/wikibase/2'') (detail_page [(''Date:'', ''2024-02-07'')])],
         \<lparr>clock = 4, log = [Error_processing_page 2 ContentWrapperNotFound],
          csv = Some
            [details_of_page (asn @ ''/wikibase/1'') (detail_page [(''Date:'', ''2024-01-05'')]),
             details_of_page (asn @ ''/wikibase/2'') (detail_page [(''Date:'', ''2024-02-07'')])]\<rparr>)
   \<and> csv \<lparr>clock = 4, log = [Error_processing_page 2 ContentWrapperNotFound],
          csv = Some
            [details_of_page (asn @ ''/wikibase/1'') (detail_page [(''Date:'', ''2024-01-05'')]),
             details_of_page (asn @ ''/wikibase/2'') (detail_page [(''Date:'', ''2024-02-07'')])]\<rparr>
     = Some
        [details_of_page (asn @ ''/wikibase/1'') (detail_page [(''Date:'', ''2024-01-05'')]),
         details_of_page (asn @ ''/wikibase/2'') (detail_page [(''Date:'', ''2024-02-07'')])]"
proof -
  let ?recs = "[details_of_page (asn @ ''/wikibase/1'') (detail_page [(''Date:'', ''2024-01-05'')]),
      details_of_page (asn @ ''/wikibase/2'') (detail_page [(''Date:'', ''2024-02-07'')])]"
  let ?s3 = "\<lparr>clock = 3, log = [], csv = Some ?recs\<rparr>"
  let ?s4 = "\<lparr>clock = 4, log = [], csv = Some ?recs\<rparr>"
  let ?sf = "\<lparr>clock = 4, log = [Error_processing_page 2 ContentWrapperNotFound], csv = Some ?recs\<rparr>"
  let ?down = "\<lparr>clock = 3,
         log = [Attempt_failed 1 (listing_url asn 2024 1), Attempt_failed 2 (listing_url asn 2024 1),
                Attempt_failed 3 (listing_url asn 2024 1)],
         csv = None\<rparr>"
  let ?bare = "\<lparr>content_wrapper = Some (Some ''3 occurrences''), table_hp = None, tables = []\<rparr>"
  let ?tableless = "serve [(listing_url asn 2024 1, ?bare)]"
  note broken = listing_failure_ends_extraction [where w = broken_site and base_url = asn
      and year = 2024 and page = 2 and total_accidents = 3 and s = ?s3
      and e = ContentWrapperNotFound and s_req = ?s4 and fuel = 0 and all_samples = ?recs
      and soup = "detail_page []"]
  note down = listing_failure_ends_extraction [where w = "serve []" and base_url = asn
      and year = 2024 and page = 1 and total_accidents = 3 and s = start and e = RequestException
      and s_req = ?down]
  note tableless = listing_failure_ends_extraction [where w = ?tableless and base_url = asn
      and year = 2024 and page = 1 and total_accidents = 3 and s = start and e = TableNotFound
      and s_req = "\<lparr>clock = 1, log = [], csv = None\<rparr>" and soup = ?bare
      and start_range = 1 and end_range = 3]
  note run = listing_failure_ends_extraction [where w = broken_site and base_url = asn
      and year = 2024 and page = 1 and total_accidents = 3 and s = start
      and fuel = "Suc (Suc 0)" and all_samples = "[]" and out = ?recs and s' = ?sf]
  have h3: "make_request broken_site (listing_url asn 2024 2) ?s3 = (Inr (detail_page []), ?s4)
            \<and> get_page_info (detail_page []) 2024 2 = Inl ContentWrapperNotFound"
    by code_simp
  have f3: "fetch_listing broken_site asn 2024 2 3 ?s3 = (Inl ContentWrapperNotFound, ?s4)"
    using mp [OF broken [THEN conjunct2, THEN conjunct2, THEN conjunct1] h3] .
  have w1: "scrape_pages (Suc 0) broken_site asn 2024 3 2 ?recs ?s3 = Some (?recs, ?sf)"
    using mp [OF broken [THEN conjunct1] f3] by simp
  have h2: "make_request (serve []) (listing_url asn 2024 1) start = (Inl RequestException, ?down)"
    by code_simp
  have w2: "fetch_listing (serve []) asn 2024 1 3 start = (Inl RequestException, ?down)"
    using mp [OF down [THEN conjunct2, THEN conjunct1] h2] .
  have h4: "make_request ?tableless (listing_url asn 2024 1) start
              = (Inr ?bare, \<lparr>clock = 1, log = [], csv = None\<rparr>)
            \<and> get_page_info ?bare 2024 1 = Inr (3, 1, 3)
            \<and> get_page_links asn ?bare = Inl TableNotFound"
    by code_simp
  have w4: "fetch_listing ?tableless asn 2024 1 3 start
            = (Inl TableNotFound, \<lparr>clock = 1, log = [], csv = None\<rparr>)"
    using mp [OF tableless [THEN conjunct2, THEN conjunct2, THEN conjunct2, THEN conjunct1] h4] .
  have h5: "scrape_pages (Suc (Suc 0)) broken_site asn 2024 3 1 [] start = Some (?recs, ?sf)"
    by code_simp
  have w5: "csv ?sf = Some ?recs"
    using mp [OF run [THEN conjunct2, THEN conjunct2, THEN conjunct2, THEN conjunct2] h5]
    by (rule conjunct1)
  from w1 w2 w4 h5 w5 show ?thesis by (intro conjI)
qed

subsection \<open>The links of a page\<close>

lemma process_links_append:
  "process_links w (first @ rest) all_samples s =
     (case process_links w first all_samples s of (m, s'') \<Rightarrow> process_links w rest m s'')"
  by (induction first arbitrary: all_samples s)
     (auto simp: Let_def split: prod.splits sum.splits)

lemma process_links_one_ok:
  "extract_accident_details w link s = (Inr details, s1) \<Longrightarrow>
   process_links w [link] all_samples s
   = (all_samples @ [details], s1\<lparr>csv := Some (all_samples @ [details])\<rparr>)"
  by (simp add: Let_def)

lemma process_links_one_failed:
  "extract_accident_details w link s = (Inl e, s1) \<Longrightarrow>
   process_links w [link] all_samples s
   = (all_samples, s1\<lparr>log := log s1 @ [Error_processing_link link e]\<rparr>)"
  by simp

lemma extract_page:
  "w (clock s) url = Page soup \<Longrightarrow>
   extract_accident_details w url s = (Inr (details_of_page url soup), s\<lparr>clock := Suc (clock s)\<rparr>)"
  by (simp add: extract_accident_details_def make_request_page)

lemma process_links_in_order:
  assumes "length pages = length links"
    and "\<forall>i < length links. w (clock s + i) (links ! i) = Page (pages ! i)"
  shows "process_links w links all_samples s =
           (all_samples @ map2 details_of_page links pages,
            s\<lparr>clock := clock s + length links,
              csv := (if links = [] then csv s
                      else Some (all_samples @ map2 details_of_page links pages))\<rparr>)"
  using assms
proof (induction links arbitrary: pages all_samples s)
  case Nil
  then show ?case by simp
next
  case (Cons link links)
  then obtain p ps where pages: "pages = p # ps"
    by (cases pages) auto
  let ?d = "details_of_page link p"
  let ?s1 = "s\<lparr>clock := Suc (clock s), csv := Some (all_samples @ [?d])\<rparr>"
  have "w (clock s) link = Page p"
    using Cons.prems(2) pages by auto
  then have ex: "extract_accident_details w link s = (Inr ?d, s\<lparr>clock := Suc (clock s)\<rparr>)"
    by (rule extract_page)
  have len: "length ps = length links"
    using Cons.prems(1) pages by simp
  have rest: "\<forall>i < length links. w (clock ?s1 + i) (links ! i) = Page (ps ! i)"
  proof (intro allI impI)
    fix i
    assume "i < length links"
    then have "w (clock s + Suc i) ((link # links) ! Suc i) = Page (pages ! Suc i)"
      using Cons.prems(2) by (metis Suc_less_eq length_Cons)
    then show "w (clock ?s1 + i) (links ! i) = Page (ps ! i)"
      using pages by simp
  qed
  have "process_links w (link # links) all_samples s
        = process_links w links (all_samples @ [?d]) ?s1"
    using ex by (simp add: Let_def)
  also have "\<dots> = ((all_samples @ [?d]) @ map2 details_of_page links ps,
            ?s1\<lparr>clock := clock ?s1 + length links,
              csv := (if links = [] then csv ?s1
                      else Some ((all_samples @ [?d]) @ map2 details_of_page links ps))\<rparr>)"
    using len rest by (rule Cons.IH)
  finally show ?case using pages by simp
qed

text \<open>
  Claim C4. In the extraction phase, for a page that was fetched and analyzed with the
  range \<open>(start, end)\<close> and the total in force: if the number of its links is not
  \<open>min 100 (end - start + 1)\<close> the crawl ends on that page with "Expected ... links, got
  ...", the records so far being written and returned; if it is, the links are
  processed and the loop either finishes (the range reaches the total) or goes on to
  the next page. Processing the links is sequential: a list of links is processed as
  its first part followed by the rest, one link adds its record and rewrites the file
  or logs its error, and when every request is answered at once the \<open>i\<close>-th link is the
  \<open>i\<close>-th request issued and the records come in the order of the links.
\<close>

theorem link_count_checked:
  "(make_request w (listing_url base_url year page) s = (Inr soup, s_req)
      \<and> get_page_info soup year page = Inr (total_accidents, start_range, end_range)
      \<and> get_page_links base_url soup = Inr page_links
      \<and> int (length page_links) \<noteq> min 100 (end_range - start_range + 1) \<longrightarrow>
    scrape_pages (Suc fuel) w base_url year total_accidents page all_samples s
    = Some (all_samples,
            s_req\<lparr>log := log s_req @
                    [Error_processing_page page
                       (LinkCountMismatch (min 100 (end_range - start_range + 1))
                          (length page_links))],
                  csv := Some all_samples\<rparr>))
   \<and> (make_request w (listing_url base_url year page) s = (Inr soup, s_req)
        \<and> get_page_info soup year page = Inr (total_accidents, start_range, end_range)
        \<and> get_page_links base_url soup = Inr page_links
        \<and> int (length page_links) = min 100 (end_range - start_range + 1) \<longrightarrow>
      scrape_pages (Suc fuel) w base_url year total_accidents page all_samples s
      = (case process_links w page_links all_samples s_req of
           (all_samples', s'') \<Rightarrow>
             if end_range \<ge> total_accidents then Some (final_write all_samples' s'')
             else scrape_pages fuel w base_url year total_accidents (page + 1) all_samples' s''))
   \<and> process_links w (first @ rest) all_samples s
      = (case process_links w first all_samples s of (m, s'') \<Rightarrow> process_links w rest m s'')
   \<and> (extract_accident_details w link s = (Inr details, s_req) \<longrightarrow>
      process_links w [link] all_samples s
      = (all_samples @ [details], s_req\<lparr>csv := Some (all_samples @ [details])\<rparr>))
   \<and> (extract_accident_details w link s = (Inl e, s_req) \<longrightarrow>
      process_links w [link] all_samples s
      = (all_samples, s_req\<lparr>log := log s_req @ [Error_processing_link link e]\<rparr>))
   \<and> (length pages = length links
        \<and> (\<forall>i < length links. w (clock s + i) (links ! i) = Page (pages ! i)) \<longrightarrow>
      process_links w links all_samples s
      = (all_samples @ map2 details_of_page links pages,
         s\<lparr>clock := clock s + length links,
           csv := (if links = [] then csv s
                   else Some (all_samples @ map2 details_of_page links pages))\<rparr>))"
proof -
  have mismatch: "make_request w (listing_url base_url year page) s = (Inr soup, s_req)
      \<and> get_page_info soup year page = Inr (total_accidents, start_range, end_range)
      \<and> get_page_links base_url soup = Inr page_links
      \<and> int (length page_links) \<noteq> min 100 (end_range - start_range + 1) \<longrightarrow>
    scrape_pages (Suc fuel) w base_url year total_accidents page all_samples s
    = Some (all_samples,
            s_req\<lparr>log := log s_req @
                    [Error_processing_page page
                       (LinkCountMismatch (min 100 (end_range - start_range + 1))
                          (length page_links))],
                  csv := Some all_samples\<rparr>)"
    using scrape_pages_failed [OF fetch_count_mismatch, of w base_url year page s soup s_req
        total_accidents start_range end_range page_links fuel all_samples]
    by blast
  have match: "make_request w (listing_url base_url year page) s = (Inr soup, s_req)
        \<and> get_page_info soup year page = Inr (total_accidents, start_range, end_range)
        \<and> get_page_links base_url soup = Inr page_links
        \<and> int (length page_links) = min 100 (end_range - start_range + 1) \<longrightarrow>
      scrape_pages (Suc fuel) w base_url year total_accidents page all_samples s
      = (case process_links w page_links all_samples s_req of
           (all_samples', s'') \<Rightarrow>
             if end_range \<ge> total_accidents then Some (final_write all_samples' s'')
             else scrape_pages fuel w base_url year total_accidents (page + 1) all_samples' s'')"
  proof (intro impI, elim conjE)
    assume "make_request w (listing_url base_url year page) s = (Inr soup, s_req)"
      and "get_page_info soup year page = Inr (total_accidents, start_range, end_range)"
      and "get_page_links base_url soup = Inr page_links"
      and "int (length page_links) = min 100 (end_range - start_range + 1)"
    then have "fetch_listing w base_url year page total_accidents s
               = (Inr (end_range, page_links), s_req)"
      by (rule fetch_count_match)
    then show "scrape_pages (Suc fuel) w base_url year total_accidents page all_samples s
      = (case process_links w page_links all_samples s_req of
           (all_samples', s'') \<Rightarrow>
             if end_range \<ge> total_accidents then Some (final_write all_samples' s'')
             else scrape_pages fuel w base_url year total_accidents (page + 1) all_samples' s'')"
      by simp
  qed
  have one_ok: "extract_accident_details w link s = (Inr details, s_req) \<longrightarrow>
      process_links w [link] all_samples s
      = (all_samples @ [details], s_req\<lparr>csv := Some (all_samples @ [details])\<rparr>)"
    using process_links_one_ok by blast
  have one_failed: "extract_accident_details w link s = (Inl e, s_req) \<longrightarrow>
      process_links w [link] all_samples s
      = (all_samples, s_req\<lparr>log := log s_req @ [Error_processing_link link e]\<rparr>)"
    using process_links_one_failed by blast
  have ordered: "length pages = length links
        \<and> (\<forall>i < length links. w (clock s + i) (links ! i) = Page (pages ! i)) \<longrightarrow>
      process_links w links all_samples s
      = (all_samples @ map2 details_of_page links pages,
         s\<lparr>clock := clock s + length links,
           csv := (if links = [] then csv s
                   else Some (all_samples @ map2 details_of_page links pages))\<rparr>)"
    using process_links_in_order [of pages links w s all_samples] by blast
  from mismatch match process_links_append [of w first rest all_samples s] one_ok one_failed ordered
  show ?thesis by (intro conjI)
qed

text \<open>
  The statement at a page that announces two records and lists one, and at the site
  with a dead link.
\<close>

theorem link_count_checked_witness:
  "scrape_pages (Suc 0)
     (serve [(listing_url asn 2024 1,
              listing_page ''showing occurrence 1-2 of 2 occurrences'' [''/wikibase/1''])])
     asn 2024 2 1 [] start
   = Some ([], \<lparr>clock = 1, log = [Error_processing_page 1 (LinkCountMismatch 2 1)], csv = Some []\<rparr>)
   \<and> scrape_pages (Suc (Suc 0)) dead_link_site asn 2024 3 1 [] start
     = Some
        ([details_of_page (asn @ ''/wikibase/1'') (detail_page [(''Date:'', ''2024-01-05'')]),
          details_of_page (asn @ ''/wikibase/3'') (detail_page [(''Date:'', ''2024-03-09'')])],
         \<lparr>clock = 7,
          log = [Attempt_failed 1 (asn @ ''/wikibase/2''), Attempt_failed 2 (asn @ ''/wikibase/2''),
                 Attempt_failed 3 (asn @ ''/wikibase/2''),
                 Error_processing_link (asn @ ''/wikibase/2'') RequestException],
          csv = Some
            [details_of_page (asn @ ''/wikibase/1'') (detail_page [(''Date:'', ''2024-01-05'')]),
             details_of_page (asn @ ''/wikibase/3'') (detail_page [(''Date:'', ''2024-03-09'')])]\<rparr>)
   \<and> process_links dead_link_site [asn @ ''/wikibase/1''] [] start
     = ([details_of_page (asn @ ''/wikibase/1'') (detail_page [(''Date:'', ''2024-01-05'')])],
        \<lparr>clock = 1, log = [],
         csv = Some
           [details_of_page (asn @ ''/wikibase/1'') (detail_page [(''Date:'', ''2024-01-05'')])]\<rparr>)
   \<and> process_links dead_link_site [asn @ ''/wikibase/2''] [] start
     = ([],
        \<lparr>clock = 3,
         log = [Attempt_failed 1 (asn @ ''/wikibase/2''), Attempt_failed 2 (asn @ ''/wikibase/2''),
                Attempt_failed 3 (asn @ ''/wikibase/2''),
                Error_processing_link (asn @ ''/wikibase/2'') RequestException],
         csv = None\<rparr>)
   \<and> process_links dead_link_site [asn @ ''/wikibase/1'', asn @ ''/wikibase/3''] [] start
     = ([] @ map2 details_of_page [asn @ ''/wikibase/1'', asn @ ''/wikibase/3'']
               [detail_page [(''Date:'', ''2024-01-05'')], detail_page [(''Date:'', ''2024-03-09'')]],
        start\<lparr>clock := clock start + length [asn @ ''/wikibase/1'', asn @ ''/wikibase/3''],
          csv := (if [asn @ ''/wikibase/1'', asn @ ''/wikibase/3''] = [] then csv start
                  else Some ([] @ map2 details_of_page [asn @ ''/wikibase/1'', asn @ ''/wikibase/3'']
                     [detail_page [(''Date:'', ''2024-01-05'')],
                      detail_page [(''Date:'', ''2024-03-09'')]]))\<rparr>)"
proof -
  let ?short_page = "listing_page ''showing occurrence 1-2 of 2 occurrences'' [''/wikibase/1'']"
  let ?short = "serve [(listing_url asn 2024 1, ?short_page)]"
  let ?first_page = "listing_page ''showing occurrence 1-2 of 3 occurrences''
                       [''/wikibase/1'', ''/wikibase/2'']"
  let ?p1 = "detail_page [(''Date:'', ''2024-01-05'')]"
  let ?p3 = "detail_page [(''Date:'', ''2024-03-09'')]"
  let ?l1 = "asn @ ''/wikibase/1''"
  let ?l2 = "asn @ ''/wikibase/2''"
  let ?l3 = "asn @ ''/wikibase/3''"
  let ?s1 = "\<lparr>clock = 1, log = [], csv = None\<rparr>"
  let ?warned = "\<lparr>clock = 3,
         log = [Attempt_failed 1 ?l2, Attempt_failed 2 ?l2, Attempt_failed 3 ?l2], csv = None\<rparr>"
  note short = link_count_checked [where w = ?short and base_url = asn and year = 2024
      and page = 1 and s = start and soup = ?short_page and s_req = ?s1 and total_accidents = 2
      and start_range = 1 and end_range = 2 and page_links = "[?l1]" and fuel = 0
      and all_samples = "[]"]
  note dead = link_count_checked [where w = dead_link_site and base_url = asn and year = 2024
      and page = 1 and s = start and soup = ?first_page and s_req = ?s1 and total_accidents = 3
      and start_range = 1 and end_range = 2 and page_links = "[?l1, ?l2]" and fuel = "Suc 0"
      and all_samples = "[]"]
  note ok = link_count_checked [where w = dead_link_site and s = start and link = ?l1
      and details = "details_of_page ?l1 ?p1" and s_req = ?s1 and all_samples = "[]"]
  note failed = link_count_checked [where w = dead_link_site and s = start and link = ?l2
      and e = RequestException and s_req = ?warned and all_samples = "[]"]
  note ordered = link_count_checked [where w = dead_link_site and s = start
      and links = "[?l1, ?l3]" and pages = "[?p1, ?p3]" and all_samples = "[]"]
  have h1: "make_request ?short (listing_url asn 2024 1) start = (Inr ?short_page, ?s1)
      \<and> get_page_info ?short_page 2024 1 = Inr (2, 1, 2)
      \<and> get_page_links asn ?short_page = Inr [?l1]
      \<and> int (length [?l1]) \<noteq> min 100 (2 - 1 + 1)"
    by code_simp
  have w1: "scrape_pages (Suc 0) ?short asn 2024 2 1 [] start
            = Some ([], \<lparr>clock = 1, log = [Error_processing_page 1 (LinkCountMismatch 2 1)],
                        csv = Some []\<rparr>)"
    using mp [OF short [THEN conjunct1] h1] by simp
  have h2: "make_request dead_link_site (listing_url asn 2024 1) start = (Inr ?first_page, ?s1)
      \<and> get_page_info ?first_page 2024 1 = Inr (3, 1, 2)
      \<and> get_page_links asn ?first_page = Inr [?l1, ?l2]
      \<and> int (length [?l1, ?l2]) = min 100 (2 - 1 + 1)"
    by code_simp
  have rest: "(case process_links dead_link_site [?l1, ?l2] [] ?s1 of
           (all_samples', s'') \<Rightarrow>
             if (2::int) \<ge> 3 then Some (final_write all_samples' s'')
             else scrape_pages (Suc 0) dead_link_site asn 2024 3 (1 + 1) all_samples' s'')
     = Some
        ([details_of_page ?l1 ?p1, details_of_page ?l3 ?p3],
         \<lparr>clock = 7,
          log = [Attempt_failed 1 ?l2, Attempt_failed 2 ?l2, Attempt_failed 3 ?l2,
                 Error_processing_link ?l2 RequestException],
          csv = Some [details_of_page ?l1 ?p1, details_of_page ?l3 ?p3]\<rparr>)"
    by code_simp
  have w2: "scrape_pages (Suc (Suc 0)) dead_link_site asn 2024 3 1 [] start
     = Some
        ([details_of_page ?l1 ?p1, details_of_page ?l3 ?p3],
         \<lparr>clock = 7,
          log = [Attempt_failed 1 ?l2, Attempt_failed 2 ?l2, Attempt_failed 3 ?l2,
                 Error_processing_link ?l2 RequestException],
          csv = Some [details_of_page ?l1 ?p1, details_of_page ?l3 ?p3]\<rparr>)"
    using mp [OF dead [THEN conjunct2, THEN conjunct1] h2] rest by (rule trans)
  have h4: "extract_accident_details dead_link_site ?l1 start = (Inr (details_of_page ?l1 ?p1), ?s1)"
    by code_simp
  have w4: "process_links dead_link_site [?l1] [] start
     = ([details_of_page ?l1 ?p1],
        \<lparr>clock = 1, log = [], csv = Some [details_of_page ?l1 ?p1]\<rparr>)"
    using mp [OF ok [THEN conjunct2, THEN conjunct2, THEN conjunct2, THEN conjunct1] h4] by simp
  have h5: "extract_accident_details dead_link_site ?l2 start = (Inl RequestException, ?warned)"
    by code_simp
  have w5: "process_links dead_link_site [?l2] [] start
     = ([],
        \<lparr>clock = 3,
         log = [Attempt_failed 1 ?l2, Attempt_failed 2 ?l2, Attempt_failed 3 ?l2,
                Error_processing_link ?l2 RequestException],
         csv = None\<rparr>)"
    using mp [OF failed [THEN conjunct2, THEN conjunct2, THEN conjunct2, THEN conjunct2,
          THEN conjunct1] h5]
    by simp
  have served: "dead_link_site 0 ?l1 = Page ?p1" "dead_link_site 1 ?l3 = Page ?p3"
    by code_simp+
  have h6: "length [?p1, ?p3] = length [?l1, ?l3]
      \<and> (\<forall>i < length [?l1, ?l3].
            dead_link_site (clock start + i) ([?l1, ?l3] ! i) = Page ([?p1, ?p3] ! i))"
    using served by (auto simp: start_def less_Suc_eq)
  note w6 = mp [OF ordered [THEN conjunct2, THEN conjunct2, THEN conjunct2, THEN conjunct2,
          THEN conjunct2] h6]
  from w1 w2 w4 w5 w6 show ?thesis by (intro conjI)
qed

subsection \<open>A link that cannot be extracted\<close>

lemma process_links_counts:
  assumes "process_links w links all_samples s = (all_samples', s')"
  shows "length all_samples' + length (filter link_error (log s'))
           = length all_samples + length links + length (filter link_error (log s))
         \<and> take (length all_samples) all_samples' = all_samples"
  using process_links_account [OF assms] by auto

lemma process_links_one_lost:
  assumes "process_links w links all_samples s = (all_samples', s')"
    and "length (filter link_error (log s')) = Suc (length (filter link_error (log s)))"
  shows "Suc (length all_samples') = length all_samples + length links
         \<and> csv s' = (if length links = 1 then csv s else Some all_samples')"
proof -
  from process_links_account [OF assms(1)] obtain new where new: "all_samples' = all_samples @ new"
      "length new + length (filter link_error (log s'))
       = length links + length (filter link_error (log s))"
      "csv s' = (if new = [] then csv s else Some all_samples')"
    by blast
  from new(2) assms(2) have "Suc (length new) = length links"
    by simp
  then have "(new = []) = (length links = 1)"
    by (cases new) auto
  with new \<open>Suc (length new) = length links\<close> show ?thesis by simp
qed

lemma process_links_skips:
  "extract_accident_details w link s = (Inl e, s1) \<Longrightarrow>
   process_links w (link # rest) all_samples s
   = process_links w rest all_samples (s1\<lparr>log := log s1 @ [Error_processing_link link e]\<rparr>)"
  by simp

lemma scrape_pages_continues:
  "fetch_listing w base_url year page total_accidents s = (Inr (end_range, page_links), s1) \<Longrightarrow>
   process_links w page_links all_samples s1 = (all_samples', s2) \<Longrightarrow>
   end_range < total_accidents \<Longrightarrow>
   scrape_pages (Suc fuel) w base_url year total_accidents page all_samples s
   = scrape_pages fuel w base_url year total_accidents (page + 1) all_samples' s2"
  by simp

lemma dead_link_site_crawl:
  "scrape_year (Suc (Suc fuel)) dead_link_site asn ''y'' 2024 start
   = Some
      ([details_of_page (asn @ ''/wikibase/1'') (detail_page [(''Date:'', ''2024-01-05'')]),
        details_of_page (asn @ ''/wikibase/3'') (detail_page [(''Date:'', ''2024-03-09'')])],
       \<lparr>clock = 9,
        log = [Attempt_failed 1 (asn @ ''/wikibase/2''), Attempt_failed 2 (asn @ ''/wikibase/2''),
               Attempt_failed 3 (asn @ ''/wikibase/2''),
               Error_processing_link (asn @ ''/wikibase/2'') RequestException],
        csv = Some
          [details_of_page (asn @ ''/wikibase/1'') (detail_page [(''Date:'', ''2024-01-05'')]),
           details_of_page (asn @ ''/wikibase/3'') (detail_page [(''Date:'', ''2024-03-09'')])]\<rparr>)"
proof -
  let ?l1 = "asn @ ''/wikibase/1''"
  let ?l2 = "asn @ ''/wikibase/2''"
  let ?l3 = "asn @ ''/wikibase/3''"
  let ?r1 = "details_of_page ?l1 (detail_page [(''Date:'', ''2024-01-05'')])"
  let ?r3 = "details_of_page ?l3 (detail_page [(''Date:'', ''2024-03-09'')])"
  let ?lost = "[Attempt_failed 1 ?l2, Attempt_failed 2 ?l2, Attempt_failed 3 ?l2,
               Error_processing_link ?l2 RequestException]"
  let ?s2 = "\<lparr>clock = 2, log = [], csv = None\<rparr>"
  let ?s3 = "\<lparr>clock = 3, log = [], csv = None\<rparr>"
  let ?s7 = "\<lparr>clock = 7, log = ?lost, csv = Some [?r1]\<rparr>"
  let ?s8 = "\<lparr>clock = 8, log = ?lost, csv = Some [?r1]\<rparr>"
  let ?s9 = "\<lparr>clock = 9, log = ?lost, csv = Some [?r1, ?r3]\<rparr>"
  have a1: "analyze_page dead_link_site asn 2024 1 None start
            = (Inr (3, 2, 2), \<lparr>clock = 1, log = [], csv = None\<rparr>)"
    by code_simp
  have a2: "analyze_page dead_link_site asn 2024 2 (Some 3) \<lparr>clock = 1, log = [], csv = None\<rparr>
            = (Inr (3, 3, 1), ?s2)"
    by code_simp
  have found: "discover (Suc (Suc fuel)) dead_link_site asn 2024 1 None [] start
               = Some (Found 3 2 [2, 1], ?s2)"
    by (simp add: a1) (simp add: a2 [simplified])
  have answer: "lower ''y'' = ''y''"
    by code_simp
  have f1: "fetch_listing dead_link_site asn 2024 1 3 ?s2 = (Inr (2, [?l1, ?l2]), ?s3)"
    by code_simp
  have l1: "process_links dead_link_site [?l1, ?l2] [] ?s3 = ([?r1], ?s7)"
    by code_simp
  have f2: "fetch_listing dead_link_site asn 2024 2 3 ?s7 = (Inr (3, [?l3]), ?s8)"
    by code_simp
  have l2: "process_links dead_link_site [?l3] [?r1] ?s8 = ([?r1, ?r3], ?s9)"
    by code_simp
  have last: "scrape_pages (Suc fuel) dead_link_site asn 2024 3 2 [?r1] ?s7 = Some ([?r1, ?r3], ?s9)"
    by (simp only: scrape_pages.simps f2 l2 prod.case sum.case final_write_def) simp
  have "scrape_pages (Suc (Suc fuel)) dead_link_site asn 2024 3 1 [] ?s2
        = scrape_pages (Suc fuel) dead_link_site asn 2024 3 (1 + 1) [?r1] ?s7"
    using f1 l1 by (rule scrape_pages_continues) simp
  with last have pages: "scrape_pages (Suc (Suc fuel)) dead_link_site asn 2024 3 1 [] ?s2
        = Some ([?r1, ?r3], ?s9)"
    by simp
  show ?thesis
    by (simp only: scrape_year_def found answer pages option.case prod.case discovery.case) simp
qed

text \<open>
  Claim C5. Processing the \<open>N\<close> links of a page adds one record for every link that
  is extracted and logs one "Error processing ..." for every link that is not, so the
  records and the errors logged add up to \<open>N\<close> and the records held before stay in
  front. If exactly one error is logged, \<open>N - 1\<close> records are added, and they are in the
  output file as soon as one has been added. A link that fails is logged and the rest
  of the page is processed; after the page the crawl goes on to the next page whenever
  the range has not reached the total. On the site with one dead link among three the
  crawl returns and writes the two other records, logs the failure and visits the
  second page, for any fuel of two or more.
\<close>

theorem one_dead_link_skipped:
  "(process_links w links all_samples s = (all_samples', s')
      \<and> length (filter link_error (log s')) = Suc (length (filter link_error (log s))) \<longrightarrow>
    Suc (length all_samples') = length all_samples + length links
    \<and> csv s' = (if length links = 1 then csv s else Some all_samples'))
   \<and> (process_links w links all_samples s = (all_samples', s') \<longrightarrow>
      length all_samples' + length (filter link_error (log s'))
        = length all_samples + length links + length (filter link_error (log s))
      \<and> take (length all_samples) all_samples' = all_samples)
   \<and> (extract_accident_details w link s = (Inl e, s_req) \<longrightarrow>
      process_links w (link # rest) all_samples s
      = process_links w rest all_samples
          (s_req\<lparr>log := log s_req @ [Error_processing_link link e]\<rparr>))
   \<and> (fetch_listing w base_url year page total_accidents s = (Inr (end_range, page_links), s_req)
        \<and> process_links w page_links all_samples s_req = (all_samples', s'')
        \<and> end_range < total_accidents \<longrightarrow>
      scrape_pages (Suc fuel) w base_url year total_accidents page all_samples s
      = scrape_pages fuel w base_url year total_accidents (page + 1) all_samples' s'')
   \<and> scrape_year (Suc (Suc fuel)) dead_link_site asn ''y'' 2024 start
     = Some
        ([details_of_page (asn @ ''/wikibase/1'') (detail_page [(''Date:'', ''2024-01-05'')]),
          details_of_page (asn @ ''/wikibase/3'') (detail_page [(''Date:'', ''2024-03-09'')])],
         \<lparr>clock = 9,
          log = [Attempt_failed 1 (asn @ ''/wikibase/2''), Attempt_failed 2 (asn @ ''/wikibase/2''),
                 Attempt_failed 3 (asn @ ''/wikibase/2''),
                 Error_processing_link (asn @ ''/wikibase/2'') RequestException],
          csv = Some
            [details_of_page (asn @ ''/wikibase/1'') (detail_page [(''Date:'', ''2024-01-05'')]),
             details_of_page (asn @ ''/wikibase/3'') (detail_page [(''Date:'', ''2024-03-09'')])]\<rparr>)"
proof -
  have lost: "process_links w links all_samples s = (all_samples', s')
      \<and> length (filter link_error (log s')) = Suc (length (filter link_error (log s))) \<longrightarrow>
    Suc (length all_samples') = length all_samples + length links
    \<and> csv s' = (if length links = 1 then csv s else Some all_samples')"
    using process_links_one_lost [of w links all_samples s all_samples' s'] by blast
  have counts: "process_links w links all_samples s = (all_samples', s') \<longrightarrow>
      length all_samples' + length (filter link_error (log s'))
        = length all_samples + length links + length (filter link_error (log s))
      \<and> take (length all_samples) all_samples' = all_samples"
    using process_links_counts [of w links all_samples s all_samples' s'] by blast
  have skips: "extract_accident_details w link s = (Inl e, s_req) \<longrightarrow>
      process_links w (link # rest) all_samples s
      = process_links w rest all_samples
          (s_req\<lparr>log := log s_req @ [Error_processing_link link e]\<rparr>)"
    using process_links_skips [of w link s e s_req rest all_samples] by blast
  have continues: "fetch_listing w base_url year page total_accidents s
          = (Inr (end_range, page_links), s_req)
        \<and> process_links w page_links all_samples s_req = (all_samples', s'')
        \<and> end_range < total_accidents \<longrightarrow>
      scrape_pages (Suc fuel) w base_url year total_accidents page all_samples s
      = scrape_pages fuel w base_url year total_accidents (page + 1) all_samples' s''"
    using scrape_pages_continues [of w base_url year page total_accidents s end_range page_links
        s_req all_samples all_samples' s'' fuel]
    by blast
  from lost counts skips continues dead_link_site_crawl [of fuel] show ?thesis by (intro conjI)
qed

text \<open>The statement at the first page of the site with a dead link.\<close>

theorem one_dead_link_skipped_witness:
  "Suc (length [details_of_page (asn @ ''/wikibase/1'') (detail_page [(''Date:'', ''2024-01-05'')])])
     = length ([] :: details list) + length [asn @ ''/wikibase/1'', asn @ ''/wikibase/2'']
   \<and> process_links dead_link_site [asn @ ''/wikibase/1'', asn @ ''/wikibase/2''] []
       \<lparr>clock = 3, log = [], csv = None\<rparr>
     = ([details_of_page (asn @ ''/wikibase/1'') (detail_page [(''Date:'', ''2024-01-05'')])],
        \<lparr>clock = 7,
         log = [Attempt_failed 1 (asn @ ''/wikibase/2''), Attempt_failed 2 (asn @ ''/wikibase/2''),
                Attempt_failed 3 (asn @ ''/wikibase/2''),
                Error_processing_link (asn @ ''/wikibase/2'') RequestException],
         csv = Some
           [details_of_page (asn @ ''/wikibase/1'') (detail_page [(''Date:'', ''2024-01-05'')])]\<rparr>)
   \<and> process_links dead_link_site [asn @ ''/wikibase/2'', asn @ ''/wikibase/3''] [] start
     = process_links dead_link_site [asn @ ''/wikibase/3''] []
         (\<lparr>clock = 3,
           log = [Attempt_failed 1 (asn @ ''/wikibase/2''), Attempt_failed 2 (asn @ ''/wikibase/2''),
                  Attempt_failed 3 (asn @ ''/wikibase/2'')],
           csv = None\<rparr>
          \<lparr>log := log \<lparr>clock = 3,
                 log = [Attempt_failed 1 (asn @ ''/wikibase/2''),
                        Attempt_failed 2 (asn @ ''/wikibase/2''),
                        Attempt_failed 3 (asn @ ''/wikibase/2'')],
                 csv = None\<rparr>
               @ [Error_processing_link (asn @ ''/wikibase/2'') RequestException]\<rparr>)
   \<and> scrape_pages (Suc (Suc 0)) dead_link_site asn 2024 3 1 [] \<lparr>clock = 2, log = [], csv = None\<rparr>
     = scrape_pages (Suc 0) dead_link_site asn 2024 3 (1 + 1)
         [details_of_page (asn @ ''/wikibase/1'') (detail_page [(''Date:'', ''2024-01-05'')])]
         \<lparr>clock = 7,
          log = [Attempt_failed 1 (asn @ ''/wikibase/2''), Attempt_failed 2 (asn @ ''/wikibase/2''),
                 Attempt_failed 3 (asn @ ''/wikibase/2''),
                 Error_processing_link (asn @ ''/wikibase/2'') RequestException],
          csv = Some
            [details_of_page (asn @ ''/wikibase/1'') (detail_page [(''Date:'', ''2024-01-05'')])]\<rparr>"
proof -
  let ?l1 = "asn @ ''/wikibase/1''"
  let ?l2 = "asn @ ''/wikibase/2''"
  let ?l3 = "asn @ ''/wikibase/3''"
  let ?r1 = "details_of_page ?l1 (detail_page [(''Date:'', ''2024-01-05'')])"
  let ?warnings = "[Attempt_failed 1 ?l2, Attempt_failed 2 ?l2, Attempt_failed 3 ?l2]"
  let ?lost = "[Attempt_failed 1 ?l2, Attempt_failed 2 ?l2, Attempt_failed 3 ?l2,
               Error_processing_link ?l2 RequestException]"
  let ?s2 = "\<lparr>clock = 2, log = [], csv = None\<rparr>"
  let ?s3 = "\<lparr>clock = 3, log = [], csv = None\<rparr>"
  let ?s7 = "\<lparr>clock = 7, log = ?lost, csv = Some [?r1]\<rparr>"
  let ?warned = "\<lparr>clock = 3, log = ?warnings, csv = None\<rparr>"
  note page = one_dead_link_skipped [where w = dead_link_site and links = "[?l1, ?l2]"
      and all_samples = "[]" and s = ?s3 and all_samples' = "[?r1]" and s' = ?s7]
  note link = one_dead_link_skipped [where w = dead_link_site and link = ?l2 and s = start
      and e = RequestException and s_req = ?warned and rest = "[?l3]" and all_samples = "[]"]
  note loop = one_dead_link_skipped [where w = dead_link_site and base_url = asn and year = 2024
      and page = 1 and total_accidents = 3 and s = ?s2 and end_range = 2
      and page_links = "[?l1, ?l2]" and s_req = ?s3 and all_samples = "[]"
      and all_samples' = "[?r1]" and s'' = ?s7 and fuel = "Suc 0"]
  have run: "process_links dead_link_site [?l1, ?l2] [] ?s3 = ([?r1], ?s7)"
    by code_simp
  have one: "length (filter link_error (log ?s7)) = Suc (length (filter link_error (log ?s3)))"
    by simp
  have w1: "Suc (length [?r1]) = length ([] :: details list) + length [?l1, ?l2]"
    using mp [OF page [THEN conjunct1] conjI [OF run one]] by (rule conjunct1)
  have counted: "length [?r1] + length (filter link_error (log ?s7))
        = length ([] :: details list) + length [?l1, ?l2] + length (filter link_error (log ?s3))
      \<and> take (length ([] :: details list)) [?r1] = []"
    using mp [OF page [THEN conjunct2, THEN conjunct1] run] .
  have h3: "extract_accident_details dead_link_site ?l2 start = (Inl RequestException, ?warned)"
    by code_simp
  note w3 = mp [OF link [THEN conjunct2, THEN conjunct2, THEN conjunct1] h3]
  have h4: "fetch_listing dead_link_site asn 2024 1 3 ?s2 = (Inr (2, [?l1, ?l2]), ?s3)
      \<and> process_links dead_link_site [?l1, ?l2] [] ?s3 = ([?r1], ?s7) \<and> (2::int) < 3"
    using run by (intro conjI) (code_simp, assumption, simp)
  note w4 = mp [OF loop [THEN conjunct2, THEN conjunct2, THEN conjunct2, THEN conjunct1] h4]
  from w1 run w3 w4 show ?thesis by (intro conjI)
qed

end
